theory Spec2Isabelle
  imports Main
begin

section \<open>Source correlation for the SSA form of Go programs\<close>

text \<open>
  A shallow embedding of the lookup functions of package \<open>ssa\<close> that connect syntax
  (\<open>ast.Node\<close>), type-checker objects (\<open>types.Object\<close>) and SSA values:
  \<open>EnclosingFunction\<close>, \<open>HasEnclosingFunction\<close>, \<open>findEnclosingPackageLevelFunction\<close>,
  \<open>findNamedFunc\<close>, \<open>ValueForExpr\<close>, \<open>packageLevelValue\<close>, \<open>FuncValue\<close>,
  \<open>ConstValue\<close> and \<open>VarValue\<close>.

  Go pointers are compared by address, so every heap object of the model carries
  its address, and the model compares and keys maps by these addresses. A nil
  pointer or nil interface is \<open>None\<close>. A run-time panic is a value of type \<open>fault\<close>.
\<close>

subsection \<open>Positions, faults\<close>

type_synonym pos = nat  \<comment> \<open>\<open>token.Pos\<close>\<close>

datatype fault =
    IndexOutOfRange  \<comment> \<open>indexing a slice out of range\<close>
  | TypeAssertion    \<comment> \<open>a failed single-result type assertion \<open>x.(T)\<close>\<close>

subsection \<open>Syntax: \<open>go/ast\<close> and \<open>go/token\<close>\<close>

datatype token = VAR | CONST | TYPE_tok | IMPORT  \<comment> \<open>\<open>token.VAR\<close>, \<open>token.CONST\<close>, \<open>token.TYPE\<close>, \<open>token.IMPORT\<close>\<close>

record ident =
  NamePos :: pos
  ident_Name :: string

datatype fieldlist = FieldList nat

record gendecl =
  Tok :: token

record funcdecl =
  Recv :: "fieldlist option"
  decl_Name :: ident

record functype =
  Func :: pos  \<comment> \<open>position of the \<open>func\<close> keyword\<close>

record funclit =
  lit_Type :: functype

text \<open>The nodes an ancestor chain is made of; \<open>OtherNode\<close> is every other kind of node.\<close>

datatype node =
    File
  | GenDecl gendecl
  | FuncDecl funcdecl
  | FuncLit funclit
  | Ident ident
  | OtherNode nat

text \<open>
  Expressions handed to \<open>ValueForExpr\<close>. Each node carries its address; a
  parenthesis node points to the expression it wraps.
\<close>

datatype expr =
    ParenExpr nat expr
  | OtherExpr nat

fun expr_addr :: "expr \<Rightarrow> nat" where
  "expr_addr (ParenExpr a x) = a"
| "expr_addr (OtherExpr a) = a"

subsection \<open>Type-checker objects: \<open>go/types\<close>\<close>

datatype scope = Universe | Scope nat

datatype exact_value = BoolVal bool | IntVal int | StringVal string | NilVal

text \<open>The part of \<open>types.Object\<close> shared by \<open>*types.Func\<close>, \<open>*types.Const\<close> and \<open>*types.Var\<close>.\<close>

record object =
  obj_addr :: nat
  obj_Parent :: "scope option"
  obj_Pkg :: "nat option"  \<comment> \<open>address of the \<open>*types.Package\<close>, nil for universal objects\<close>
  obj_Name :: string
  obj_Pos :: pos

text \<open>A method binding of a method set; its \<open>Obj\<close> is the declared \<open>*types.Func\<close>.\<close>

record selection =
  sel_Obj :: object

text \<open>
  Modelled from the spec: the declarations of \<open>types.Type\<close>, \<open>types.NewPointer\<close> and
  \<open>MethodSet\<close> are not among the sources. A method set is a per-type sequence of
  method bindings; a named type carries the method set of the type itself and that
  of the pointer to it.
\<close>

datatype gotype =
    Basic string
  | Named nat "selection list" "selection list"
  | Pointer gotype

definition NewPointer :: "gotype \<Rightarrow> gotype" where
  "NewPointer t = Pointer t"

fun MethodSet :: "gotype \<Rightarrow> selection list" where
  "MethodSet (Named a ms pms) = ms"
| "MethodSet (Pointer (Named a ms pms)) = pms"
| "MethodSet t = []"

record types_Func = object +
  func_Recv :: "gotype option"  \<comment> \<open>the receiver's type, nil for a plain function\<close>

record types_Const = object +
  const_Val :: exact_value
  const_Type :: gotype

record types_Var = object +
  var_Type :: gotype

subsection \<open>The SSA program\<close>

record global =
  global_addr :: nat

record const =
  const_addr :: nat
  Type :: gotype
  Value :: exact_value

record builtin =
  builtin_addr :: nat

record parameter =
  param_addr :: nat
  param_Object :: "nat option"  \<comment> \<open>address of the \<open>types.Object\<close> of \<open>param.Object()\<close>\<close>

text \<open>
  A \<open>Function\<close> owns its blocks, parameters and the functions of the literals
  directly nested in it. Modelled from the spec: the declaration of \<open>Function\<close> is
  not among the sources; \<open>Synthetic\<close> tells a function synthesized by the compiler
  (the package initializer, an interface-method wrapper) from one declared in the
  source. A \<open>Value\<close> is a \<open>Function\<close>, \<open>Global\<close>, \<open>Const\<close>, \<open>Builtin\<close>,
  \<open>Parameter\<close> or the result of some other instruction. A debug reference pairs an
  expression (by pointer) and its position with a value.
\<close>

datatype ssa_function =
  Function (fn_addr: nat) (fn_Pos: pos) (Synthetic: bool) (debugInfo: bool)
    (Params: "parameter list") (Blocks: "block list") (AnonFuncs: "ssa_function list")
and block =
  Block (Instrs: "instruction list")
and instruction =
    DebugRef (ref_Expr: expr) (ref_Pos: pos) (ref_X: "val option")
  | OtherInstr nat
and val =
    VFunction ssa_function
  | VGlobal global
  | VConst const
  | VBuiltin builtin
  | VParameter parameter
  | VInstr nat

text \<open>A package member; the iteration over the map \<open>pkg.Members\<close> visits them in some order.\<close>

datatype member =
    MFunction ssa_function
  | MType gotype
  | MGlobal global
  | MNamedConst const

record package =
  pkg_init :: ssa_function
  Members :: "member list"
  pkg_values :: "nat \<rightharpoonup> val"  \<comment> \<open>keyed by the address of the \<open>types.Object\<close>\<close>

text \<open>
  Modelled from the spec: \<open>Program.Method\<close> is not among the sources. The field
  \<open>methods\<close> gives, for a method binding, the \<open>Function\<close> that implements it: the
  declared method, or the wrapper that represents interface-method dispatch.
\<close>

record program =
  packages :: "nat option \<rightharpoonup> package"  \<comment> \<open>keyed by the \<open>*types.Package\<close>, which may be nil\<close>
  builtins :: "nat \<rightharpoonup> builtin"  \<comment> \<open>keyed by the address of the \<open>*types.Func\<close>\<close>
  methods :: "selection \<Rightarrow> ssa_function"

subsection \<open>\<open>findNamedFunc\<close>\<close>

text \<open>
  The inner loop over the method set of one named type: \<open>None\<close> when no binding is
  at \<open>pos\<close> and the outer loop goes on. The assertion \<open>pkg.values[obj].(*Function)\<close>
  panics when the table has no entry for \<open>obj\<close> or one that is no \<open>Function\<close>.
\<close>

fun findNamedFunc_mset :: "package \<Rightarrow> pos \<Rightarrow> selection list \<Rightarrow> (fault + ssa_function) option" where
  "findNamedFunc_mset pkg pos [] = None"
| "findNamedFunc_mset pkg pos (s # ss) =
     (if obj_Pos (sel_Obj s) = pos
      then Some (case pkg_values pkg (obj_addr (sel_Obj s)) of
                   Some (VFunction f) \<Rightarrow> Inr f
                 | _ \<Rightarrow> Inl TypeAssertion)
      else findNamedFunc_mset pkg pos ss)"

fun findNamedFunc_members :: "package \<Rightarrow> pos \<Rightarrow> member list \<Rightarrow> fault + ssa_function option" where
  "findNamedFunc_members pkg pos [] = Inr None"
| "findNamedFunc_members pkg pos (MFunction f # ms) =
     (if fn_Pos f = pos then Inr (Some f) else findNamedFunc_members pkg pos ms)"
| "findNamedFunc_members pkg pos (MType t # ms) =
     (case findNamedFunc_mset pkg pos (MethodSet (NewPointer t)) of
        Some (Inl e) \<Rightarrow> Inl e
      | Some (Inr f) \<Rightarrow> Inr (Some f)
      | None \<Rightarrow> findNamedFunc_members pkg pos ms)"
| "findNamedFunc_members pkg pos (m # ms) = findNamedFunc_members pkg pos ms"

definition findNamedFunc :: "package \<Rightarrow> pos \<Rightarrow> fault + ssa_function option" where
  "findNamedFunc pkg pos = findNamedFunc_members pkg pos (Members pkg)"

subsection \<open>\<open>findEnclosingPackageLevelFunction\<close> and \<open>HasEnclosingFunction\<close>\<close>

definition findEnclosingPackageLevelFunction :: "package \<Rightarrow> node list \<Rightarrow> fault + ssa_function option" where
  "findEnclosingPackageLevelFunction pkg path =
     (let n = length path in
      if n \<ge> 2 then
        (case path ! (n - 2) of
           GenDecl decl \<Rightarrow>
             if Tok decl = VAR \<and> n \<ge> 3 then Inr (Some (pkg_init pkg)) else Inr None
         | FuncDecl decl \<Rightarrow>
             if Recv decl = None \<and> ident_Name (decl_Name decl) = ''init''
             then Inr (Some (pkg_init pkg))
             else findNamedFunc pkg (NamePos (decl_Name decl))
         | _ \<Rightarrow> Inr None)
      else Inr None)"

definition HasEnclosingFunction :: "package \<Rightarrow> node list \<Rightarrow> fault + bool" where
  "HasEnclosingFunction pkg path =
     (case findEnclosingPackageLevelFunction pkg path of
        Inl e \<Rightarrow> Inl e
      | Inr fn \<Rightarrow> Inr (fn \<noteq> None))"

subsection \<open>\<open>EnclosingFunction\<close>\<close>

text \<open>The inner loop: the first of \<open>fn.AnonFuncs\<close> whose position is that of the literal.\<close>

fun findAnon :: "pos \<Rightarrow> ssa_function list \<Rightarrow> ssa_function option" where
  "findAnon p [] = None"
| "findAnon p (anon # anons) = (if fn_Pos anon = p then Some anon else findAnon p anons)"

text \<open>
  The outer loop, \<open>for i := range path\<close>, reading \<open>path[n-1-i]\<close>: from the file
  down to the node of interest.
\<close>

function EnclosingFunction_loop :: "ssa_function \<Rightarrow> node list \<Rightarrow> nat \<Rightarrow> ssa_function option" where
  "EnclosingFunction_loop fn path i =
     (if i < length path then
        (case path ! (length path - 1 - i) of
           FuncLit lit \<Rightarrow>
             (case findAnon (Func (lit_Type lit)) (AnonFuncs fn) of
                Some anon \<Rightarrow> EnclosingFunction_loop anon path (i + 1)
              | None \<Rightarrow> None)
         | _ \<Rightarrow> EnclosingFunction_loop fn path (i + 1))
      else Some fn)"
  by pat_completeness auto
termination
  by (relation "measure (\<lambda>(fn, path, i). length path - i)") auto

declare EnclosingFunction_loop.simps [simp del]

definition EnclosingFunction :: "package \<Rightarrow> node list \<Rightarrow> fault + ssa_function option" where
  "EnclosingFunction pkg path =
     (case findEnclosingPackageLevelFunction pkg path of
        Inl e \<Rightarrow> Inl e
      | Inr None \<Rightarrow> Inr None
      | Inr (Some fn) \<Rightarrow> Inr (EnclosingFunction_loop fn path 0))"

subsection \<open>\<open>ValueForExpr\<close>\<close>

text \<open>
  Modelled from the spec: \<open>unparen\<close> is not among the sources. It strips the
  redundant parenthesization of an expression.
\<close>

fun unparen :: "expr \<Rightarrow> expr" where
  "unparen (ParenExpr a x) = unparen x"
| "unparen e = e"

text \<open>
  The loops over the instructions of a block and over the blocks of a function.
  \<open>None\<close>: no debug reference matched; \<open>Some v\<close>: the loop returned \<open>ref.X\<close>, which
  is \<open>v\<close>. \<open>ref.Expr == e\<close> compares two pointers.
\<close>

fun ValueForExpr_instrs :: "expr \<Rightarrow> instruction list \<Rightarrow> val option option" where
  "ValueForExpr_instrs e [] = None"
| "ValueForExpr_instrs e (DebugRef re rp rx # ins) =
     (if expr_addr re = expr_addr e then Some rx else ValueForExpr_instrs e ins)"
| "ValueForExpr_instrs e (OtherInstr a # ins) = ValueForExpr_instrs e ins"

fun ValueForExpr_blocks :: "expr \<Rightarrow> block list \<Rightarrow> val option option" where
  "ValueForExpr_blocks e [] = None"
| "ValueForExpr_blocks e (b # bs) =
     (case ValueForExpr_instrs e (Instrs b) of
        Some v \<Rightarrow> Some v
      | None \<Rightarrow> ValueForExpr_blocks e bs)"

definition ValueForExpr :: "ssa_function \<Rightarrow> expr \<Rightarrow> val option" where
  "ValueForExpr f e =
     (if debugInfo f then
        (case ValueForExpr_blocks (unparen e) (Blocks f) of
           Some v \<Rightarrow> v
         | None \<Rightarrow> None)
      else None)"

subsection \<open>\<open>packageLevelValue\<close> and \<open>FuncValue\<close>\<close>

definition packageLevelValue :: "program \<Rightarrow> 'a object_scheme \<Rightarrow> val option" where
  "packageLevelValue prog obj =
     (case packages prog (obj_Pkg obj) of
        Some pkg \<Rightarrow> pkg_values pkg (obj_addr obj)
      | None \<Rightarrow> None)"

text \<open>
  Modelled from the spec: \<open>recvType\<close>, \<open>MethodSet.Lookup\<close> and \<open>Program.Method\<close> are
  not among the sources. \<open>recvMethodSet obj\<close> is \<open>recvType(obj).MethodSet()\<close>, the
  method set of the receiver's type, which has no binding when \<open>obj\<close> has no
  receiver; \<open>Lookup\<close> finds the binding for a package and a name; \<open>Method\<close>
  resolves a binding to the \<open>Function\<close> that implements it and is "not found"
  only when there is no binding.
\<close>

definition recvMethodSet :: "types_Func \<Rightarrow> selection list" where
  "recvMethodSet obj = (case func_Recv obj of None \<Rightarrow> [] | Some t \<Rightarrow> MethodSet t)"

fun Lookup :: "selection list \<Rightarrow> nat option \<Rightarrow> string \<Rightarrow> selection option" where
  "Lookup [] pkg name = None"
| "Lookup (s # ss) pkg name =
     (if obj_Pkg (sel_Obj s) = pkg \<and> obj_Name (sel_Obj s) = name then Some s
      else Lookup ss pkg name)"

definition Method :: "program \<Rightarrow> selection option \<Rightarrow> fault + val option" where
  "Method prog meth =
     (case meth of
        None \<Rightarrow> Inr None
      | Some sel \<Rightarrow> Inr (Some (VFunction (methods prog sel))))"

definition FuncValue :: "program \<Rightarrow> types_Func \<Rightarrow> fault + val option" where
  "FuncValue prog obj =
     (case builtins prog (obj_addr obj) of
        Some v \<Rightarrow> Inr (Some (VBuiltin v))
      | None \<Rightarrow>
          (case packageLevelValue prog obj of
             Some v \<Rightarrow> Inr (Some v)
           | None \<Rightarrow> Method prog (Lookup (recvMethodSet obj) (obj_Pkg obj) (obj_Name obj))))"

subsection \<open>\<open>ConstValue\<close>\<close>

text \<open>
  Modelled from the spec: \<open>NewConst\<close> is not among the sources. It synthesizes a
  fresh \<open>Const\<close> from a literal value and a type: the new \<open>Const\<close> is allocated at
  the next free address \<open>h\<close> of the heap, and the next free address moves on.
\<close>

definition NewConst :: "exact_value \<Rightarrow> gotype \<Rightarrow> nat \<Rightarrow> const \<times> nat" where
  "NewConst val t h = (\<lparr>const_addr = h, Type = t, Value = val\<rparr>, Suc h)"

text \<open>
  \<open>ConstValue prog obj h\<close> runs with next free address \<open>h\<close> and returns its result
  with the next free address after the call. \<open>v.(*Const)\<close> panics when \<open>v\<close> is no
  \<open>Const\<close>.
\<close>

definition ConstValue :: "program \<Rightarrow> types_Const \<Rightarrow> nat \<Rightarrow> fault + (const option \<times> nat)" where
  "ConstValue prog obj h =
     (if obj_Parent obj = Some Universe then
        (case NewConst (const_Val obj) (const_Type obj) h of (c, h') \<Rightarrow> Inr (Some c, h'))
      else
        (case packageLevelValue prog obj of
           Some (VConst c) \<Rightarrow> Inr (Some c, h)
         | Some v \<Rightarrow> Inl TypeAssertion
         | None \<Rightarrow>
             (case NewConst (const_Val obj) (const_Type obj) h of (c, h') \<Rightarrow> Inr (Some c, h'))))"

subsection \<open>\<open>VarValue\<close>\<close>

text \<open>The loop over \<open>fn.Params\<close>: the first parameter whose object is \<open>obj\<close>.\<close>

fun VarValue_params :: "nat \<Rightarrow> parameter list \<Rightarrow> parameter option" where
  "VarValue_params a [] = None"
| "VarValue_params a (param # params) =
     (if param_Object param = Some a then Some param else VarValue_params a params)"

text \<open>The loops over the debug references: the first one at the identifier's position.\<close>

fun VarValue_instrs :: "pos \<Rightarrow> instruction list \<Rightarrow> val option option" where
  "VarValue_instrs p [] = None"
| "VarValue_instrs p (DebugRef re rp rx # ins) =
     (if rp = p then Some rx else VarValue_instrs p ins)"
| "VarValue_instrs p (OtherInstr a # ins) = VarValue_instrs p ins"

fun VarValue_blocks :: "pos \<Rightarrow> block list \<Rightarrow> val option option" where
  "VarValue_blocks p [] = None"
| "VarValue_blocks p (b # bs) =
     (case VarValue_instrs p (Instrs b) of
        Some v \<Rightarrow> Some v
      | None \<Rightarrow> VarValue_blocks p bs)"

text \<open>
  \<open>ref[0].(*ast.Ident)\<close> comes first: it panics on an empty \<open>ref\<close> (index out of
  range) and on a first node that is no identifier (type assertion). \<open>v.(*Global)\<close>
  panics when the package-level value is no \<open>Global\<close>.
\<close>

definition VarValue :: "program \<Rightarrow> types_Var \<Rightarrow> package \<Rightarrow> node list \<Rightarrow> fault + val option" where
  "VarValue prog obj pkg ref =
     (case ref of
        [] \<Rightarrow> Inl IndexOutOfRange
      | Ident idn # rest \<Rightarrow>
          (case packageLevelValue prog obj of
             Some (VGlobal g) \<Rightarrow> Inr (Some (VGlobal g))
           | Some v \<Rightarrow> Inl TypeAssertion
           | None \<Rightarrow>
               (case EnclosingFunction pkg ref of
                  Inl e \<Rightarrow> Inl e
                | Inr None \<Rightarrow> Inr None
                | Inr (Some fn) \<Rightarrow>
                    (case (if NamePos idn = obj_Pos obj
                           then VarValue_params (obj_addr obj) (Params fn) else None) of
                       Some param \<Rightarrow> Inr (Some (VParameter param))
                     | None \<Rightarrow>
                         (case VarValue_blocks (NamePos idn) (Blocks fn) of
                            Some v \<Rightarrow> Inr v
                          | None \<Rightarrow> Inr None))))
      | n # rest \<Rightarrow> Inl TypeAssertion)"

section \<open>The specification's view\<close>

subsection \<open>The ancestor-chain classifier\<close>

text \<open>
  The syntax-only classification of an ancestor chain, in the words of the
  specification: "none" for a chain of fewer than two nodes; otherwise, with the
  parent the node directly under the file root, "package initializer" for a
  variable group under a chain of at least three nodes and for a declaration with
  no receiver named \<open>init\<close>, "named declaration" with the position of the name for
  every other function or method declaration, and "none" for anything else.
\<close>

datatype classification = NoClass | PackageInitializer | NamedDeclaration pos

definition ClassifyEnclosingTopLevel :: "node list \<Rightarrow> classification" where
  "ClassifyEnclosingTopLevel chain =
     (if length chain < 2 then NoClass
      else (case chain ! (length chain - 2) of
              GenDecl d \<Rightarrow>
                if Tok d = VAR \<and> length chain \<ge> 3 then PackageInitializer else NoClass
            | FuncDecl d \<Rightarrow>
                if Recv d = None \<and> ident_Name (decl_Name d) = ''init'' then PackageInitializer
                else NamedDeclaration (NamePos (decl_Name d))
            | _ \<Rightarrow> NoClass))"

subsection \<open>Descending into nested literals\<close>

text \<open>
  The positions of the function literals of a chain, innermost first, and the
  descent of the specification: from a function, through the literals from the
  outermost to the innermost, each time to the entry of \<open>AnonFuncs\<close> at the
  literal's position.
\<close>

fun literals :: "node list \<Rightarrow> pos list" where
  "literals [] = []"
| "literals (FuncLit lit # ns) = Func (lit_Type lit) # literals ns"
| "literals (n # ns) = literals ns"

fun descend :: "ssa_function \<Rightarrow> pos list \<Rightarrow> ssa_function option" where
  "descend fn [] = Some fn"
| "descend fn (p # ps) =
     (case findAnon p (AnonFuncs fn) of
        Some anon \<Rightarrow> descend anon ps
      | None \<Rightarrow> None)"

text \<open>
  The same nesting said without a search, over the entries of \<open>AnonFuncs\<close> as a
  set: \<open>nested_chain fn ps hs\<close> holds when the functions \<open>hs\<close> are, one inside the
  other from \<open>fn\<close> inwards, entries of \<open>AnonFuncs\<close> of the function before at the
  positions \<open>ps\<close>. \<open>unique_anon_positions fn hs\<close> holds when, in \<open>fn\<close> and in every
  function of \<open>hs\<close> that has a successor, no two entries of \<open>AnonFuncs\<close> share a
  position.
\<close>

fun nested_chain :: "ssa_function \<Rightarrow> pos list \<Rightarrow> ssa_function list \<Rightarrow> bool" where
  "nested_chain fn [] [] = True"
| "nested_chain fn (p # ps) (h # hs) =
     (h \<in> set (AnonFuncs fn) \<and> fn_Pos h = p \<and> nested_chain h ps hs)"
| "nested_chain fn ps hs = False"

fun unique_anon_positions :: "ssa_function \<Rightarrow> ssa_function list \<Rightarrow> bool" where
  "unique_anon_positions fn [] = True"
| "unique_anon_positions fn (h # hs) =
     (distinct (map fn_Pos (AnonFuncs fn)) \<and> unique_anon_positions h hs)"

subsection \<open>A package before its functions are built\<close>

text \<open>
  Building a package fills in the parameters, the blocks and the nested functions
  of its functions. \<open>unbuilt_package pkg\<close> is \<open>pkg\<close> with every function of its
  initializer, its members and its value table as it is before that.
\<close>

definition unbuilt :: "ssa_function \<Rightarrow> ssa_function" where
  "unbuilt f = Function (fn_addr f) (fn_Pos f) (Synthetic f) (debugInfo f) [] [] []"

fun unbuilt_val :: "val \<Rightarrow> val" where
  "unbuilt_val (VFunction f) = VFunction (unbuilt f)"
| "unbuilt_val v = v"

fun unbuilt_member :: "member \<Rightarrow> member" where
  "unbuilt_member (MFunction f) = MFunction (unbuilt f)"
| "unbuilt_member m = m"

definition unbuilt_package :: "package \<Rightarrow> package" where
  "unbuilt_package pkg =
     \<lparr>pkg_init = unbuilt (pkg_init pkg),
      Members = map unbuilt_member (Members pkg),
      pkg_values = (\<lambda>a. map_option unbuilt_val (pkg_values pkg a))\<rparr>"

section \<open>An example package\<close>

text \<open>
  The package of the examples declares a variable \<open>x\<close>, a function \<open>f(a)\<close> whose
  body holds two function literals, the second of which refers to \<open>y\<close>, a type \<open>T\<close>
  with a method \<open>m\<close>, a constant \<open>c\<close> and a function with the blank name.
  Positions: \<open>f\<close> at 10, its parameter \<open>a\<close> at 12, the literals at 17 and 20, \<open>y\<close>
  at 25, \<open>m\<close> at 30, the blank function at 40.
\<close>

definition ex_lit :: ssa_function where
  "ex_lit = Function 3 20 False True []
              [Block [OtherInstr 6, DebugRef (OtherExpr 100) 25 (Some (VInstr 7))]] []"

definition ex_lit0 :: ssa_function where
  "ex_lit0 = Function 12 17 False True [] [Block []] []"

definition ex_f :: ssa_function where
  "ex_f = Function 2 10 False True [\<lparr>param_addr = 8, param_Object = Some 54\<rparr>] [Block []]
            [ex_lit0, ex_lit]"

definition ex_m :: ssa_function where
  "ex_m = Function 4 30 False False [] [] []"

definition ex_wrapper :: ssa_function where
  "ex_wrapper = Function 11 0 True False [] [] []"

definition ex_init :: ssa_function where
  "ex_init = Function 1 0 True False [] [] []"

definition ex_m_obj :: object where
  "ex_m_obj = \<lparr>obj_addr = 50, obj_Parent = None, obj_Pkg = Some 1, obj_Name = ''m'', obj_Pos = 30\<rparr>"

definition ex_T :: gotype where
  "ex_T = Named 60 [\<lparr>sel_Obj = ex_m_obj\<rparr>] [\<lparr>sel_Obj = ex_m_obj\<rparr>]"

definition ex_c :: const where
  "ex_c = \<lparr>const_addr = 9, Type = Basic ''int'', Value = IntVal 42\<rparr>"

definition ex_pkg :: package where
  "ex_pkg = \<lparr>pkg_init = ex_init,
             Members = [MGlobal \<lparr>global_addr = 5\<rparr>, MFunction ex_f, MType ex_T, MNamedConst ex_c],
             pkg_values = [50 \<mapsto> VFunction ex_m, 51 \<mapsto> VFunction ex_f,
                           52 \<mapsto> VGlobal \<lparr>global_addr = 5\<rparr>, 53 \<mapsto> VConst ex_c]\<rparr>"

definition ex_prog :: program where
  "ex_prog = \<lparr>packages = [Some 1 \<mapsto> ex_pkg],
              builtins = [70 \<mapsto> \<lparr>builtin_addr = 71\<rparr>],
              methods = (\<lambda>sel. ex_wrapper)\<rparr>"

text \<open>The same package with no entry for the method \<open>m\<close> in its value table.\<close>

definition ex_pkg_no_entry :: package where
  "ex_pkg_no_entry = \<lparr>pkg_init = ex_init, Members = Members ex_pkg,
                       pkg_values = (pkg_values ex_pkg)(50 := None)\<rparr>"

text \<open>The same program before the functions of the package are built.\<close>

definition ex_prog_unbuilt :: program where
  "ex_prog_unbuilt = \<lparr>packages = [Some 1 \<mapsto> unbuilt_package ex_pkg],
                      builtins = [70 \<mapsto> \<lparr>builtin_addr = 71\<rparr>],
                      methods = (\<lambda>sel. ex_wrapper)\<rparr>"

text \<open>Chains: to \<open>y\<close> in the literal, into \<open>m\<close>, into the blank function, into the
  initializer of \<open>x\<close>, and into a type declaration.\<close>

definition ex_path_y :: "node list" where
  "ex_path_y = [Ident \<lparr>NamePos = 25, ident_Name = ''y''\<rparr>,
                FuncLit \<lparr>lit_Type = \<lparr>Func = 20\<rparr>\<rparr>,
                OtherNode 1,
                FuncDecl \<lparr>Recv = None, decl_Name = \<lparr>NamePos = 10, ident_Name = ''f''\<rparr>\<rparr>,
                File]"

definition ex_path_m :: "node list" where
  "ex_path_m = [Ident \<lparr>NamePos = 35, ident_Name = ''z''\<rparr>,
                FuncDecl \<lparr>Recv = Some (FieldList 0),
                          decl_Name = \<lparr>NamePos = 30, ident_Name = ''m''\<rparr>\<rparr>,
                File]"

definition ex_path_blank :: "node list" where
  "ex_path_blank = [Ident \<lparr>NamePos = 45, ident_Name = ''w''\<rparr>,
                    FuncDecl \<lparr>Recv = None, decl_Name = \<lparr>NamePos = 40, ident_Name = ''_''\<rparr>\<rparr>,
                    File]"

definition ex_path_x :: "node list" where
  "ex_path_x = [OtherNode 2, OtherNode 3, GenDecl \<lparr>Tok = VAR\<rparr>, File]"

definition ex_path_type :: "node list" where
  "ex_path_type = [OtherNode 4, GenDecl \<lparr>Tok = TYPE_tok\<rparr>, File]"

text \<open>Objects: the variables \<open>x\<close> (package level) and \<open>y\<close> (local), the constants
  \<open>true\<close> (universal), \<open>c\<close> (package level) and \<open>k\<close> (local), the built-in \<open>len\<close>, the
  function \<open>f\<close>, a method \<open>n\<close> of an interface, and a function \<open>g\<close> of a package
  for which no SSA package exists.\<close>

definition ex_x_var :: types_Var where
  "ex_x_var = \<lparr>obj_addr = 52, obj_Parent = Some (Scope 1), obj_Pkg = Some 1, obj_Name = ''x'',
               obj_Pos = 5, var_Type = Basic ''int''\<rparr>"

definition ex_y_var :: types_Var where
  "ex_y_var = \<lparr>obj_addr = 55, obj_Parent = Some (Scope 2), obj_Pkg = Some 1, obj_Name = ''y'',
               obj_Pos = 22, var_Type = Basic ''int''\<rparr>"

definition ex_true_const :: types_Const where
  "ex_true_const = \<lparr>obj_addr = 80, obj_Parent = Some Universe, obj_Pkg = None, obj_Name = ''true'',
                    obj_Pos = 0, const_Val = BoolVal True, const_Type = Basic ''untyped bool''\<rparr>"

definition ex_c_const :: types_Const where
  "ex_c_const = \<lparr>obj_addr = 53, obj_Parent = Some (Scope 1), obj_Pkg = Some 1, obj_Name = ''c'',
                 obj_Pos = 50, const_Val = IntVal 42, const_Type = Basic ''int''\<rparr>"

definition ex_k_const :: types_Const where
  "ex_k_const = \<lparr>obj_addr = 56, obj_Parent = Some (Scope 2), obj_Pkg = Some 1, obj_Name = ''k'',
                 obj_Pos = 14, const_Val = StringVal ''k'', const_Type = Basic ''string''\<rparr>"

definition ex_len_func :: types_Func where
  "ex_len_func = \<lparr>obj_addr = 70, obj_Parent = Some Universe, obj_Pkg = None, obj_Name = ''len'',
                  obj_Pos = 0, func_Recv = None\<rparr>"

definition ex_f_func :: types_Func where
  "ex_f_func = \<lparr>obj_addr = 51, obj_Parent = Some (Scope 1), obj_Pkg = Some 1, obj_Name = ''f'',
                obj_Pos = 10, func_Recv = None\<rparr>"

definition ex_n_obj :: object where
  "ex_n_obj = \<lparr>obj_addr = 57, obj_Parent = None, obj_Pkg = Some 1, obj_Name = ''n'', obj_Pos = 60\<rparr>"

definition ex_n_func :: types_Func where
  "ex_n_func = \<lparr>obj_addr = 57, obj_Parent = None, obj_Pkg = Some 1, obj_Name = ''n'',
                obj_Pos = 60, func_Recv = Some (Named 61 [\<lparr>sel_Obj = ex_n_obj\<rparr>] [])\<rparr>"

definition ex_g_func :: types_Func where
  "ex_g_func = \<lparr>obj_addr = 90, obj_Parent = Some (Scope 9), obj_Pkg = Some 2, obj_Name = ''g'',
                obj_Pos = 200, func_Recv = None\<rparr>"

section \<open>Properties\<close>

subsection \<open>The enclosing function\<close>

lemma literals_append: "literals (xs @ ys) = literals xs @ literals ys"
  by (induction xs rule: literals.induct) auto

lemma take_last_index:
  assumes "i < length path"
  shows "take (length path - i) path
         = take (length path - 1 - i) path @ [path ! (length path - 1 - i)]"
proof -
  from assms have "length path - i = Suc (length path - 1 - i)"
    and "length path - 1 - i < length path"
    by arith+
  then show ?thesis by (simp only: take_Suc_conv_app_nth)
qed

text \<open>
  After \<open>i\<close> rounds the loop has the last \<open>i\<close> nodes of the chain behind it; what
  it still does is the descent through the literals of the nodes before them.
\<close>

lemma EnclosingFunction_loop_descend:
  "i \<le> length path \<Longrightarrow>
   EnclosingFunction_loop fn path i = descend fn (rev (literals (take (length path - i) path)))"
proof (induction fn path i rule: EnclosingFunction_loop.induct)
  case (1 fn path i)
  show ?case
  proof (cases "i < length path")
    case False
    with "1.prems" have "i = length path" by simp
    then show ?thesis by (simp add: EnclosingFunction_loop.simps [of fn path "length path"])
  next
    case True
    let ?x = "path ! (length path - 1 - i)"
    have tk: "literals (take (length path - i) path)
              = literals (take (length path - (i + 1)) path) @ literals [?x]"
      using take_last_index [OF True] by (simp add: literals_append)
    from True have le: "i + 1 \<le> length path" by simp
    have unf: "EnclosingFunction_loop fn path i =
        (case ?x of
           FuncLit lit \<Rightarrow>
             (case findAnon (Func (lit_Type lit)) (AnonFuncs fn) of
                Some anon \<Rightarrow> EnclosingFunction_loop anon path (i + 1)
              | None \<Rightarrow> None)
         | _ \<Rightarrow> EnclosingFunction_loop fn path (i + 1))"
      using True by (subst EnclosingFunction_loop.simps) simp
    show ?thesis
    proof (cases ?x)
      case File
      with tk unf "1.IH"(1) [OF True File le] show ?thesis by simp
    next
      case (GenDecl d)
      with tk unf "1.IH"(2) [OF True GenDecl le] show ?thesis by simp
    next
      case (FuncDecl d)
      with tk unf "1.IH"(3) [OF True FuncDecl le] show ?thesis by simp
    next
      case (FuncLit lit)
      show ?thesis
      proof (cases "findAnon (Func (lit_Type lit)) (AnonFuncs fn)")
        case None
        with FuncLit tk unf show ?thesis by simp
      next
        case (Some anon)
        with FuncLit tk unf "1.IH"(4) [OF True FuncLit Some le] show ?thesis by simp
      qed
    next
      case (Ident d)
      with tk unf "1.IH"(5) [OF True Ident le] show ?thesis by simp
    next
      case (OtherNode d)
      with tk unf "1.IH"(6) [OF True OtherNode le] show ?thesis by simp
    qed
  qed
qed

lemma EnclosingFunction_loop_0:
  "EnclosingFunction_loop fn path 0 = descend fn (rev (literals path))"
  using EnclosingFunction_loop_descend [of 0 path fn] by simp

lemma descend_append:
  "descend fn (ps @ qs) = (case descend fn ps of Some g \<Rightarrow> descend g qs | None \<Rightarrow> None)"
  by (induction fn ps rule: descend.induct) (auto split: option.splits)

lemma findAnon_None: "findAnon p anons = None \<longleftrightarrow> (\<forall>a \<in> set anons. fn_Pos a \<noteq> p)"
  by (induction anons) auto

lemma findAnon_Some: "findAnon p anons = Some a \<Longrightarrow> a \<in> set anons \<and> fn_Pos a = p"
  by (induction anons) (auto split: if_splits)

lemma descend_missing:
  assumes "descend fn0 ps = Some fn" and "\<forall>a \<in> set (AnonFuncs fn). fn_Pos a \<noteq> p"
  shows "descend fn0 (ps @ p # qs) = None"
proof -
  from assms(2) have "findAnon p (AnonFuncs fn) = None" by (simp add: findAnon_None)
  with assms(1) show ?thesis by (simp add: descend_append)
qed

lemma descend_innermost:
  assumes "descend fn0 (rev (p # ps)) = Some g"
  shows "fn_Pos g = p \<and>
         (\<exists>parent. descend fn0 (rev ps) = Some parent \<and> g \<in> set (AnonFuncs parent))"
proof -
  from assms
  have "(case descend fn0 (rev ps) of Some parent \<Rightarrow> descend parent [p] | None \<Rightarrow> None) = Some g"
    by (simp add: descend_append)
  then obtain parent where par: "descend fn0 (rev ps) = Some parent" "descend parent [p] = Some g"
    by (auto split: option.splits)
  from par(2) have "findAnon p (AnonFuncs parent) = Some g"
    by (auto split: option.splits)
  then have "g \<in> set (AnonFuncs parent) \<and> fn_Pos g = p" by (rule findAnon_Some)
  with par(1) show ?thesis by simp
qed

lemma findAnon_unique:
  "h \<in> set anons \<Longrightarrow> distinct (map fn_Pos anons) \<Longrightarrow> findAnon (fn_Pos h) anons = Some h"
  by (induction anons) (auto simp: image_iff)

lemma nested_chain_descend:
  "nested_chain fn ps hs \<Longrightarrow> unique_anon_positions fn hs \<Longrightarrow>
   descend fn ps = Some (last (fn # hs))"
proof (induction fn ps hs rule: nested_chain.induct)
  case (2 fn p ps h hs)
  then have "findAnon p (AnonFuncs fn) = Some h"
    using findAnon_unique [of h "AnonFuncs fn"] by auto
  with 2 show ?case by simp
qed simp_all

lemma descend_nested_chain:
  "descend fn ps = Some g \<Longrightarrow> \<exists>hs. nested_chain fn ps hs \<and> g = last (fn # hs)"
proof (induction fn ps arbitrary: g rule: descend.induct)
  case (1 fn)
  then have "nested_chain fn [] [] \<and> g = last (fn # [])" by simp
  then show ?case by blast
next
  case (2 fn p ps)
  from "2.prems" obtain anon where an: "findAnon p (AnonFuncs fn) = Some anon"
    and d: "descend anon ps = Some g"
    by (auto split: option.splits)
  from "2.IH" [OF an d] obtain hs where hs: "nested_chain anon ps hs" "g = last (anon # hs)"
    by blast
  from an have "anon \<in> set (AnonFuncs fn) \<and> fn_Pos anon = p" by (rule findAnon_Some)
  with hs have "nested_chain fn (p # ps) (anon # hs) \<and> g = last (fn # anon # hs)" by simp
  then show ?case by blast
qed

lemma nested_chain_Nil: "nested_chain fn [] hs \<longleftrightarrow> hs = []"
  by (cases hs) simp_all

lemma nested_chain_last_Pos:
  "nested_chain fn ps hs \<Longrightarrow> ps \<noteq> [] \<Longrightarrow> fn_Pos (last (fn # hs)) = last ps"
  by (induction fn ps hs rule: nested_chain.induct) (auto simp: nested_chain_Nil split: if_splits)

text \<open>
  Claim C1. Let the package-level function of the chain be \<open>fn0\<close>. If the chain
  passes through a function literal, and the function the walk has reached when
  it comes to that literal has no entry in \<open>AnonFuncs\<close> at the literal's position,
  then \<open>EnclosingFunction\<close> returns nil and no outer function. If every literal of
  the chain has its entry, that is, if there are functions \<open>hs\<close>, one for each
  literal from the outermost to the innermost, each an entry of \<open>AnonFuncs\<close> of the
  one before (of \<open>fn0\<close> for the first) at the position of its literal, and the
  positions in these \<open>AnonFuncs\<close> are unique, then the result is the innermost of
  them, the last of \<open>hs\<close> (and \<open>fn0\<close> itself for a chain without literals). Every
  function that \<open>EnclosingFunction\<close> returns is the innermost of such functions
  and, for a chain with literals, at the position of the innermost literal.
\<close>

theorem EnclosingFunction_descends_literals:
  assumes top: "findEnclosingPackageLevelFunction pkg path = Inr (Some fn0)"
  shows "(\<forall>inner lit outer fn.
            path = inner @ FuncLit lit # outer \<and>
            descend fn0 (rev (literals outer)) = Some fn \<and>
            (\<forall>anon \<in> set (AnonFuncs fn). fn_Pos anon \<noteq> Func (lit_Type lit))
            \<longrightarrow> EnclosingFunction pkg path = Inr None)
       \<and> (\<forall>hs. nested_chain fn0 (rev (literals path)) hs \<and> unique_anon_positions fn0 hs
            \<longrightarrow> EnclosingFunction pkg path = Inr (Some (last (fn0 # hs))))
       \<and> (\<forall>g. EnclosingFunction pkg path = Inr (Some g) \<longrightarrow>
            (\<exists>hs. nested_chain fn0 (rev (literals path)) hs \<and> g = last (fn0 # hs)) \<and>
            (literals path = [] \<longrightarrow> g = fn0) \<and>
            (literals path \<noteq> [] \<longrightarrow> fn_Pos g = hd (literals path)))"
proof -
  have res: "EnclosingFunction pkg path = Inr (descend fn0 (rev (literals path)))"
    using top by (simp add: EnclosingFunction_def EnclosingFunction_loop_0)
  have missing: "EnclosingFunction pkg path = Inr None"
    if "path = inner @ FuncLit lit # outer"
      and "descend fn0 (rev (literals outer)) = Some fn"
      and "\<forall>anon \<in> set (AnonFuncs fn). fn_Pos anon \<noteq> Func (lit_Type lit)"
    for inner lit outer fn
  proof -
    from that(1) have "rev (literals path)
        = rev (literals outer) @ Func (lit_Type lit) # rev (literals inner)"
      by (simp add: literals_append)
    with descend_missing [OF that(2) that(3)] res show ?thesis by simp
  qed
  have found: "EnclosingFunction pkg path = Inr (Some (last (fn0 # hs)))"
    if "nested_chain fn0 (rev (literals path)) hs" and "unique_anon_positions fn0 hs" for hs
    using res nested_chain_descend [OF that] by simp
  have chain: "\<exists>hs. nested_chain fn0 (rev (literals path)) hs \<and> g = last (fn0 # hs)"
    if "EnclosingFunction pkg path = Inr (Some g)" for g
  proof -
    from that res have "descend fn0 (rev (literals path)) = Some g" by simp
    then show ?thesis by (rule descend_nested_chain)
  qed
  have top_level: "g = fn0"
    if "EnclosingFunction pkg path = Inr (Some g)" and "literals path = []" for g
    using that res by simp
  have innermost: "fn_Pos g = hd (literals path)"
    if "EnclosingFunction pkg path = Inr (Some g)" and "literals path \<noteq> []" for g
  proof -
    from chain [OF that(1)] obtain hs
      where hs: "nested_chain fn0 (rev (literals path)) hs" "g = last (fn0 # hs)"
      by blast
    from that(2) have "rev (literals path) \<noteq> []" by simp
    from nested_chain_last_Pos [OF hs(1) this] hs(2) that(2)
    show ?thesis by (simp add: last_rev)
  qed
  show ?thesis
  proof (intro conjI allI impI)
    fix inner lit outer fn
    assume "path = inner @ FuncLit lit # outer \<and>
            descend fn0 (rev (literals outer)) = Some fn \<and>
            (\<forall>anon \<in> set (AnonFuncs fn). fn_Pos anon \<noteq> Func (lit_Type lit))"
    then show "EnclosingFunction pkg path = Inr None"
      using missing [of inner lit outer fn] by simp
  next
    fix hs
    assume "nested_chain fn0 (rev (literals path)) hs \<and> unique_anon_positions fn0 hs"
    then show "EnclosingFunction pkg path = Inr (Some (last (fn0 # hs)))"
      using found [of hs] by simp
  next
    fix g assume "EnclosingFunction pkg path = Inr (Some g)"
    then show "\<exists>hs. nested_chain fn0 (rev (literals path)) hs \<and> g = last (fn0 # hs)"
      by (rule chain)
  next
    fix g assume "EnclosingFunction pkg path = Inr (Some g)" "literals path = []"
    then show "g = fn0" by (rule top_level)
  next
    fix g assume "EnclosingFunction pkg path = Inr (Some g)" "literals path \<noteq> []"
    then show "fn_Pos g = hd (literals path)" by (rule innermost)
  qed
qed

text \<open>
  In the example, the literal around \<open>y\<close> is the second entry of \<open>AnonFuncs\<close> of \<open>f\<close>.
  The chain to \<open>y\<close> resolves to the function of that literal once \<open>f\<close> is built,
  and to nil, not to \<open>f\<close>, while \<open>f\<close> has no nested functions yet.
\<close>

theorem EnclosingFunction_descends_literals_witness:
  "findEnclosingPackageLevelFunction ex_pkg ex_path_y = Inr (Some ex_f) \<and>
   AnonFuncs ex_f = [ex_lit0, ex_lit] \<and>
   rev (literals ex_path_y) = [20] \<and>
   nested_chain ex_f [20] [ex_lit] \<and>
   unique_anon_positions ex_f [ex_lit] \<and>
   EnclosingFunction ex_pkg ex_path_y = Inr (Some ex_lit) \<and>
   fn_Pos ex_lit = hd (literals ex_path_y) \<and>
   findEnclosingPackageLevelFunction (unbuilt_package ex_pkg) ex_path_y = Inr (Some (unbuilt ex_f)) \<and>
   AnonFuncs (unbuilt ex_f) = [] \<and>
   EnclosingFunction (unbuilt_package ex_pkg) ex_path_y = Inr None"
proof -
  have top: "findEnclosingPackageLevelFunction ex_pkg ex_path_y = Inr (Some ex_f)"
    by code_simp
  have an: "AnonFuncs ex_f = [ex_lit0, ex_lit]"
    by (simp add: ex_f_def)
  have lits: "rev (literals ex_path_y) = [20]"
    by (simp add: ex_path_y_def)
  have ne: "literals ex_path_y \<noteq> []"
    by (simp add: ex_path_y_def)
  have nc: "nested_chain ex_f [20] [ex_lit]"
    by (simp add: ex_f_def ex_lit_def)
  have un: "unique_anon_positions ex_f [ex_lit]"
    by (simp add: ex_f_def ex_lit_def ex_lit0_def)
  from EnclosingFunction_descends_literals [OF top]
  have "\<forall>hs. nested_chain ex_f (rev (literals ex_path_y)) hs \<and> unique_anon_positions ex_f hs
            \<longrightarrow> EnclosingFunction ex_pkg ex_path_y = Inr (Some (last (ex_f # hs)))"
    by blast
  then have "nested_chain ex_f (rev (literals ex_path_y)) [ex_lit]
               \<and> unique_anon_positions ex_f [ex_lit]
            \<longrightarrow> EnclosingFunction ex_pkg ex_path_y = Inr (Some (last (ex_f # [ex_lit])))"
    by (rule spec)
  with lits nc un have built: "EnclosingFunction ex_pkg ex_path_y = Inr (Some ex_lit)"
    by simp
  from EnclosingFunction_descends_literals [OF top]
  have "\<forall>g. EnclosingFunction ex_pkg ex_path_y = Inr (Some g) \<longrightarrow>
            (\<exists>hs. nested_chain ex_f (rev (literals ex_path_y)) hs \<and> g = last (ex_f # hs)) \<and>
            (literals ex_path_y = [] \<longrightarrow> g = ex_f) \<and>
            (literals ex_path_y \<noteq> [] \<longrightarrow> fn_Pos g = hd (literals ex_path_y))"
    by blast
  with built ne have inner: "fn_Pos ex_lit = hd (literals ex_path_y)"
    by simp
  have top': "findEnclosingPackageLevelFunction (unbuilt_package ex_pkg) ex_path_y
              = Inr (Some (unbuilt ex_f))"
    by code_simp
  have split: "ex_path_y = [Ident \<lparr>NamePos = 25, ident_Name = ''y''\<rparr>]
      @ FuncLit \<lparr>lit_Type = \<lparr>Func = 20\<rparr>\<rparr>
      # [OtherNode 1,
         FuncDecl \<lparr>Recv = None, decl_Name = \<lparr>NamePos = 10, ident_Name = ''f''\<rparr>\<rparr>, File]"
    by (simp add: ex_path_y_def)
  have d': "descend (unbuilt ex_f) (rev (literals [OtherNode 1,
         FuncDecl \<lparr>Recv = None, decl_Name = \<lparr>NamePos = 10, ident_Name = ''f''\<rparr>\<rparr>, File]))
         = Some (unbuilt ex_f)"
    by simp
  have none: "AnonFuncs (unbuilt ex_f) = []"
    by (simp add: unbuilt_def)
  then have none': "\<forall>anon \<in> set (AnonFuncs (unbuilt ex_f)).
      fn_Pos anon \<noteq> Func (lit_Type \<lparr>lit_Type = \<lparr>Func = 20\<rparr>\<rparr>)"
    by simp
  from EnclosingFunction_descends_literals [OF top']
  have "\<forall>inner lit outer fn.
            ex_path_y = inner @ FuncLit lit # outer \<and>
            descend (unbuilt ex_f) (rev (literals outer)) = Some fn \<and>
            (\<forall>anon \<in> set (AnonFuncs fn). fn_Pos anon \<noteq> Func (lit_Type lit))
            \<longrightarrow> EnclosingFunction (unbuilt_package ex_pkg) ex_path_y = Inr None"
    by (rule conjunct1)
  with split d' none' have "EnclosingFunction (unbuilt_package ex_pkg) ex_path_y = Inr None"
    by blast
  with top an lits nc un built inner top' none show ?thesis by simp
qed

subsection \<open>The package-level function of a chain\<close>

text \<open>The code's resolution is the classification followed by the lookup in the package.\<close>

lemma findEnclosingPackageLevelFunction_classify:
  "findEnclosingPackageLevelFunction pkg path =
     (case ClassifyEnclosingTopLevel path of
        NoClass \<Rightarrow> Inr None
      | PackageInitializer \<Rightarrow> Inr (Some (pkg_init pkg))
      | NamedDeclaration p \<Rightarrow> findNamedFunc pkg p)"
  by (auto simp: findEnclosingPackageLevelFunction_def ClassifyEnclosingTopLevel_def Let_def
           split: node.splits)

lemma findNamedFunc_mset_unbuilt:
  "findNamedFunc_mset (unbuilt_package pkg) pos ss
   = map_option (map_sum id unbuilt) (findNamedFunc_mset pkg pos ss)"
  by (induction ss) (auto simp: unbuilt_package_def split: option.splits val.splits)

lemma findNamedFunc_members_unbuilt:
  "findNamedFunc_members (unbuilt_package pkg) pos (map unbuilt_member ms)
   = map_sum id (map_option unbuilt) (findNamedFunc_members pkg pos ms)"
proof (induction pkg pos ms rule: findNamedFunc_members.induct)
  case (3 pkg pos t ms)
  then show ?case
    by (cases "findNamedFunc_mset pkg pos (MethodSet (NewPointer t))")
       (auto simp: findNamedFunc_mset_unbuilt split: sum.splits)
qed (auto simp: unbuilt_def)

lemma findEnclosingPackageLevelFunction_unbuilt:
  "findEnclosingPackageLevelFunction (unbuilt_package pkg) path
   = map_sum id (map_option unbuilt) (findEnclosingPackageLevelFunction pkg path)"
proof -
  have m: "Members (unbuilt_package pkg) = map unbuilt_member (Members pkg)"
    and i: "pkg_init (unbuilt_package pkg) = unbuilt (pkg_init pkg)"
    by (simp_all add: unbuilt_package_def)
  show ?thesis
    by (simp add: findEnclosingPackageLevelFunction_def findNamedFunc_def m i
                  findNamedFunc_members_unbuilt Let_def
             split: node.splits)
qed

lemma HasEnclosingFunction_unbuilt:
  "HasEnclosingFunction (unbuilt_package pkg) path = HasEnclosingFunction pkg path"
  by (cases "findEnclosingPackageLevelFunction pkg path")
     (auto simp: HasEnclosingFunction_def findEnclosingPackageLevelFunction_unbuilt)

text \<open>
  What \<open>findNamedFunc\<close> returns, said over the members of the package as a set:
  nil exactly when no member function and no binding of a member type's pointer
  method set is at the position; a \<open>Function\<close> only if it is a member at the
  position or the value-table entry of such a binding; a panic only if the
  value table has no \<open>Function\<close> for such a binding.
\<close>

lemma findNamedFunc_mset_None:
  "findNamedFunc_mset pkg pos ss = None \<longleftrightarrow> (\<forall>s \<in> set ss. obj_Pos (sel_Obj s) \<noteq> pos)"
  by (induction ss) auto

lemma findNamedFunc_mset_Inl:
  "findNamedFunc_mset pkg pos ss = Some (Inl e) \<Longrightarrow>
   \<exists>s \<in> set ss. obj_Pos (sel_Obj s) = pos
               \<and> (\<forall>f. pkg_values pkg (obj_addr (sel_Obj s)) \<noteq> Some (VFunction f))"
  by (induction ss) (auto split: if_splits option.splits val.splits)

lemma findNamedFunc_mset_Some_Inr:
  "findNamedFunc_mset pkg pos ss = Some (Inr f) \<Longrightarrow>
   \<exists>s \<in> set ss. obj_Pos (sel_Obj s) = pos
               \<and> pkg_values pkg (obj_addr (sel_Obj s)) = Some (VFunction f)"
  by (induction ss) (auto split: if_splits option.splits val.splits)

lemma findNamedFunc_members_None:
  "findNamedFunc_members pkg pos ms = Inr None \<longleftrightarrow>
     (\<forall>f. MFunction f \<in> set ms \<longrightarrow> fn_Pos f \<noteq> pos) \<and>
     (\<forall>t s. MType t \<in> set ms \<and> s \<in> set (MethodSet (NewPointer t))
        \<longrightarrow> obj_Pos (sel_Obj s) \<noteq> pos)"
proof (induction pkg pos ms rule: findNamedFunc_members.induct)
  case (3 pkg pos t ms)
  show ?case
  proof (cases "findNamedFunc_mset pkg pos (MethodSet (NewPointer t))")
    case None
    then have "\<forall>s \<in> set (MethodSet (NewPointer t)). obj_Pos (sel_Obj s) \<noteq> pos"
      by (simp add: findNamedFunc_mset_None)
    with None 3 show ?thesis by auto
  next
    case (Some r)
    then have "\<not> (\<forall>s \<in> set (MethodSet (NewPointer t)). obj_Pos (sel_Obj s) \<noteq> pos)"
      using findNamedFunc_mset_None [of pkg pos "MethodSet (NewPointer t)"] by simp
    with Some show ?thesis by (cases r) auto
  qed
qed auto

lemma findNamedFunc_members_Some:
  "findNamedFunc_members pkg pos ms = Inr (Some fn) \<Longrightarrow>
   (MFunction fn \<in> set ms \<and> fn_Pos fn = pos) \<or>
   (\<exists>t s. MType t \<in> set ms \<and> s \<in> set (MethodSet (NewPointer t)) \<and> obj_Pos (sel_Obj s) = pos
        \<and> pkg_values pkg (obj_addr (sel_Obj s)) = Some (VFunction fn))"
proof (induction pkg pos ms rule: findNamedFunc_members.induct)
  case (3 pkg pos t ms)
  show ?case
  proof (cases "findNamedFunc_mset pkg pos (MethodSet (NewPointer t))")
    case None
    with 3 show ?thesis by auto
  next
    case (Some r)
    with "3.prems" have "r = Inr fn" by (cases r) auto
    with Some findNamedFunc_mset_Some_Inr [of pkg pos "MethodSet (NewPointer t)" fn]
    show ?thesis by auto
  qed
qed (auto split: if_splits)

lemma findNamedFunc_members_Inl:
  "findNamedFunc_members pkg pos ms = Inl e \<Longrightarrow>
   \<exists>t s. MType t \<in> set ms \<and> s \<in> set (MethodSet (NewPointer t)) \<and> obj_Pos (sel_Obj s) = pos
        \<and> (\<forall>f. pkg_values pkg (obj_addr (sel_Obj s)) \<noteq> Some (VFunction f))"
proof (induction pkg pos ms rule: findNamedFunc_members.induct)
  case (3 pkg pos t ms)
  show ?case
  proof (cases "findNamedFunc_mset pkg pos (MethodSet (NewPointer t))")
    case None
    with 3 show ?thesis by auto
  next
    case (Some r)
    show ?thesis
    proof (cases r)
      case (Inl e')
      with Some findNamedFunc_mset_Inl [of pkg pos "MethodSet (NewPointer t)" e']
      show ?thesis by auto
    next
      case (Inr f)
      with Some "3.prems" show ?thesis by simp
    qed
  qed
qed (auto split: if_splits)

text \<open>
  Claim C2, as stated, fails: \<open>HasEnclosingFunction\<close> is not a function of the
  chain alone. The chain into the function with the blank name is classified as
  a named declaration, and the package has no \<open>Function\<close> for it, so the result
  is false.
\<close>

theorem HasEnclosingFunction_not_syntax_only_counterexample:
  "ClassifyEnclosingTopLevel ex_path_blank = NamedDeclaration 40 \<and>
   HasEnclosingFunction ex_pkg ex_path_blank = Inr False"
  by code_simp

text \<open>
  Claim C2, amended. \<open>HasEnclosingFunction\<close> returns true only for a chain whose
  classification is not "none". It returns false for the classification "none"
  and true for "package initializer". For a named declaration at position \<open>p\<close> it
  returns what \<open>findNamedFunc\<close> finds, that is:
  \<^item> false exactly when the package has no member \<open>Function\<close> at \<open>p\<close> and no
    member type whose pointer method set has a binding at \<open>p\<close>;
  \<^item> true only if the package has a member \<open>Function\<close> at \<open>p\<close>, or a member type
    whose pointer method set has a binding at \<open>p\<close> with a \<open>Function\<close> as the
    value-table entry of its object;
  \<^item> true whenever there is such a member or binding and every such binding has a
    \<open>Function\<close> as its value-table entry;
  \<^item> a panic only if some such binding has no \<open>Function\<close> as its value-table
    entry.
  The result is the same before and after the functions of the package are built.
\<close>

theorem HasEnclosingFunction_classification:
  "(HasEnclosingFunction pkg path = Inr True \<longrightarrow> ClassifyEnclosingTopLevel path \<noteq> NoClass) \<and>
   (ClassifyEnclosingTopLevel path = NoClass \<longrightarrow> HasEnclosingFunction pkg path = Inr False) \<and>
   (ClassifyEnclosingTopLevel path = PackageInitializer \<longrightarrow>
      HasEnclosingFunction pkg path = Inr True) \<and>
   (\<forall>p. ClassifyEnclosingTopLevel path = NamedDeclaration p \<longrightarrow>
      HasEnclosingFunction pkg path =
        (case findNamedFunc pkg p of Inl e \<Rightarrow> Inl e | Inr fn \<Rightarrow> Inr (fn \<noteq> None))) \<and>
   (\<forall>p. ClassifyEnclosingTopLevel path = NamedDeclaration p \<longrightarrow>
      (HasEnclosingFunction pkg path = Inr False \<longleftrightarrow>
         (\<forall>f. MFunction f \<in> set (Members pkg) \<longrightarrow> fn_Pos f \<noteq> p) \<and>
         (\<forall>t s. MType t \<in> set (Members pkg) \<and> s \<in> set (MethodSet (NewPointer t))
            \<longrightarrow> obj_Pos (sel_Obj s) \<noteq> p)) \<and>
      (HasEnclosingFunction pkg path = Inr True \<longrightarrow>
         (\<exists>f. MFunction f \<in> set (Members pkg) \<and> fn_Pos f = p) \<or>
         (\<exists>t s f. MType t \<in> set (Members pkg) \<and> s \<in> set (MethodSet (NewPointer t)) \<and>
            obj_Pos (sel_Obj s) = p \<and>
            pkg_values pkg (obj_addr (sel_Obj s)) = Some (VFunction f))) \<and>
      (((\<exists>f. MFunction f \<in> set (Members pkg) \<and> fn_Pos f = p) \<or>
        (\<exists>t s. MType t \<in> set (Members pkg) \<and> s \<in> set (MethodSet (NewPointer t)) \<and>
            obj_Pos (sel_Obj s) = p)) \<and>
       (\<forall>t s. MType t \<in> set (Members pkg) \<and> s \<in> set (MethodSet (NewPointer t)) \<and>
            obj_Pos (sel_Obj s) = p \<longrightarrow>
            (\<exists>f. pkg_values pkg (obj_addr (sel_Obj s)) = Some (VFunction f)))
       \<longrightarrow> HasEnclosingFunction pkg path = Inr True) \<and>
      (\<forall>e. HasEnclosingFunction pkg path = Inl e \<longrightarrow>
         (\<exists>t s. MType t \<in> set (Members pkg) \<and> s \<in> set (MethodSet (NewPointer t)) \<and>
            obj_Pos (sel_Obj s) = p \<and>
            (\<forall>f. pkg_values pkg (obj_addr (sel_Obj s)) \<noteq> Some (VFunction f))))) \<and>
   HasEnclosingFunction (unbuilt_package pkg) path = HasEnclosingFunction pkg path"
proof -
  have named: "HasEnclosingFunction pkg path =
        (case findNamedFunc_members pkg p (Members pkg) of
           Inl e \<Rightarrow> Inl e | Inr fn \<Rightarrow> Inr (fn \<noteq> None))"
    if "ClassifyEnclosingTopLevel path = NamedDeclaration p" for p
    using that
    by (simp add: HasEnclosingFunction_def findEnclosingPackageLevelFunction_classify
                  findNamedFunc_def)
  have false_iff: "HasEnclosingFunction pkg path = Inr False \<longleftrightarrow>
         (\<forall>f. MFunction f \<in> set (Members pkg) \<longrightarrow> fn_Pos f \<noteq> p) \<and>
         (\<forall>t s. MType t \<in> set (Members pkg) \<and> s \<in> set (MethodSet (NewPointer t))
            \<longrightarrow> obj_Pos (sel_Obj s) \<noteq> p)"
    if c: "ClassifyEnclosingTopLevel path = NamedDeclaration p" for p
  proof -
    have "HasEnclosingFunction pkg path = Inr False
          \<longleftrightarrow> findNamedFunc_members pkg p (Members pkg) = Inr None"
      by (auto simp: named [OF c] split: sum.splits)
    then show ?thesis by (simp only: findNamedFunc_members_None)
  qed
  have true_only: "(\<exists>f. MFunction f \<in> set (Members pkg) \<and> fn_Pos f = p) \<or>
         (\<exists>t s f. MType t \<in> set (Members pkg) \<and> s \<in> set (MethodSet (NewPointer t)) \<and>
            obj_Pos (sel_Obj s) = p \<and>
            pkg_values pkg (obj_addr (sel_Obj s)) = Some (VFunction f))"
    if c: "ClassifyEnclosingTopLevel path = NamedDeclaration p"
      and t: "HasEnclosingFunction pkg path = Inr True" for p
  proof -
    from t obtain fn where "findNamedFunc_members pkg p (Members pkg) = Inr (Some fn)"
      by (auto simp: named [OF c] split: sum.splits)
    from findNamedFunc_members_Some [OF this] show ?thesis by blast
  qed
  have panic_only: "\<exists>t s. MType t \<in> set (Members pkg) \<and> s \<in> set (MethodSet (NewPointer t)) \<and>
            obj_Pos (sel_Obj s) = p \<and>
            (\<forall>f. pkg_values pkg (obj_addr (sel_Obj s)) \<noteq> Some (VFunction f))"
    if c: "ClassifyEnclosingTopLevel path = NamedDeclaration p"
      and t: "HasEnclosingFunction pkg path = Inl e" for p e
  proof -
    from t obtain e' where "findNamedFunc_members pkg p (Members pkg) = Inl e'"
      by (auto simp: named [OF c] split: sum.splits)
    then show ?thesis by (rule findNamedFunc_members_Inl)
  qed
  have true_when: "HasEnclosingFunction pkg path = Inr True"
    if c: "ClassifyEnclosingTopLevel path = NamedDeclaration p"
      and ex: "(\<exists>f. MFunction f \<in> set (Members pkg) \<and> fn_Pos f = p) \<or>
        (\<exists>t s. MType t \<in> set (Members pkg) \<and> s \<in> set (MethodSet (NewPointer t)) \<and>
            obj_Pos (sel_Obj s) = p)"
      and good: "\<forall>t s. MType t \<in> set (Members pkg) \<and> s \<in> set (MethodSet (NewPointer t)) \<and>
            obj_Pos (sel_Obj s) = p \<longrightarrow>
            (\<exists>f. pkg_values pkg (obj_addr (sel_Obj s)) = Some (VFunction f))" for p
  proof (cases "HasEnclosingFunction pkg path")
    case (Inl e)
    from panic_only [OF c Inl] good show ?thesis by blast
  next
    case (Inr b)
    show ?thesis
    proof (cases b)
      case True
      with Inr show ?thesis by simp
    next
      case False
      with Inr have "HasEnclosingFunction pkg path = Inr False" by simp
      with false_iff [OF c] ex show ?thesis by blast
    qed
  qed
  show ?thesis
  proof (intro conjI allI impI)
    show "HasEnclosingFunction (unbuilt_package pkg) path = HasEnclosingFunction pkg path"
      by (rule HasEnclosingFunction_unbuilt)
  next
    assume "HasEnclosingFunction pkg path = Inr True"
    then show "ClassifyEnclosingTopLevel path \<noteq> NoClass"
      by (auto simp: HasEnclosingFunction_def findEnclosingPackageLevelFunction_classify)
  next
    assume "ClassifyEnclosingTopLevel path = NoClass"
    then show "HasEnclosingFunction pkg path = Inr False"
      by (simp add: HasEnclosingFunction_def findEnclosingPackageLevelFunction_classify)
  next
    assume "ClassifyEnclosingTopLevel path = PackageInitializer"
    then show "HasEnclosingFunction pkg path = Inr True"
      by (simp add: HasEnclosingFunction_def findEnclosingPackageLevelFunction_classify)
  next
    fix p assume "ClassifyEnclosingTopLevel path = NamedDeclaration p"
    then show "HasEnclosingFunction pkg path =
          (case findNamedFunc pkg p of Inl e \<Rightarrow> Inl e | Inr fn \<Rightarrow> Inr (fn \<noteq> None))"
      by (simp add: HasEnclosingFunction_def findEnclosingPackageLevelFunction_classify)
  next
    fix p assume "ClassifyEnclosingTopLevel path = NamedDeclaration p"
    then show "HasEnclosingFunction pkg path = Inr False \<longleftrightarrow>
         (\<forall>f. MFunction f \<in> set (Members pkg) \<longrightarrow> fn_Pos f \<noteq> p) \<and>
         (\<forall>t s. MType t \<in> set (Members pkg) \<and> s \<in> set (MethodSet (NewPointer t))
            \<longrightarrow> obj_Pos (sel_Obj s) \<noteq> p)"
      by (rule false_iff)
  next
    fix p assume "ClassifyEnclosingTopLevel path = NamedDeclaration p"
      and "HasEnclosingFunction pkg path = Inr True"
    then show "(\<exists>f. MFunction f \<in> set (Members pkg) \<and> fn_Pos f = p) \<or>
         (\<exists>t s f. MType t \<in> set (Members pkg) \<and> s \<in> set (MethodSet (NewPointer t)) \<and>
            obj_Pos (sel_Obj s) = p \<and>
            pkg_values pkg (obj_addr (sel_Obj s)) = Some (VFunction f))"
      by (rule true_only)
  next
    fix p assume c: "ClassifyEnclosingTopLevel path = NamedDeclaration p"
      and h: "((\<exists>f. MFunction f \<in> set (Members pkg) \<and> fn_Pos f = p) \<or>
        (\<exists>t s. MType t \<in> set (Members pkg) \<and> s \<in> set (MethodSet (NewPointer t)) \<and>
            obj_Pos (sel_Obj s) = p)) \<and>
       (\<forall>t s. MType t \<in> set (Members pkg) \<and> s \<in> set (MethodSet (NewPointer t)) \<and>
            obj_Pos (sel_Obj s) = p \<longrightarrow>
            (\<exists>f. pkg_values pkg (obj_addr (sel_Obj s)) = Some (VFunction f)))"
    show "HasEnclosingFunction pkg path = Inr True"
      by (rule true_when [OF c conjunct1 [OF h] conjunct2 [OF h]])
  next
    fix p e assume "ClassifyEnclosingTopLevel path = NamedDeclaration p"
      and "HasEnclosingFunction pkg path = Inl e"
    then show "\<exists>t s. MType t \<in> set (Members pkg) \<and> s \<in> set (MethodSet (NewPointer t)) \<and>
            obj_Pos (sel_Obj s) = p \<and>
            (\<forall>f. pkg_values pkg (obj_addr (sel_Obj s)) \<noteq> Some (VFunction f))"
      by (rule panic_only)
  qed
qed

text \<open>
  In the example: a chain into a type declaration; one into the initializer of
  \<open>x\<close>; the chain to \<open>y\<close>, under the member function \<open>f\<close>; the chain into the
  method \<open>m\<close>, which is found through the method set of \<open>*T\<close> and the value table;
  the chain into the function with the blank name; and the chain into \<open>m\<close> for a
  package whose value table has no entry for \<open>m\<close>.
\<close>

theorem HasEnclosingFunction_classification_witness:
  "ClassifyEnclosingTopLevel ex_path_type = NoClass \<and>
   HasEnclosingFunction ex_pkg ex_path_type = Inr False \<and>
   ClassifyEnclosingTopLevel ex_path_x = PackageInitializer \<and>
   HasEnclosingFunction ex_pkg ex_path_x = Inr True \<and>
   ClassifyEnclosingTopLevel ex_path_y = NamedDeclaration 10 \<and>
   MFunction ex_f \<in> set (Members ex_pkg) \<and> fn_Pos ex_f = 10 \<and>
   HasEnclosingFunction ex_pkg ex_path_y = Inr True \<and>
   HasEnclosingFunction (unbuilt_package ex_pkg) ex_path_y = Inr True \<and>
   ClassifyEnclosingTopLevel ex_path_m = NamedDeclaration 30 \<and>
   MType ex_T \<in> set (Members ex_pkg) \<and>
   \<lparr>sel_Obj = ex_m_obj\<rparr> \<in> set (MethodSet (NewPointer ex_T)) \<and>
   obj_Pos ex_m_obj = 30 \<and>
   pkg_values ex_pkg (obj_addr ex_m_obj) = Some (VFunction ex_m) \<and>
   HasEnclosingFunction ex_pkg ex_path_m = Inr True \<and>
   ClassifyEnclosingTopLevel ex_path_blank = NamedDeclaration 40 \<and>
   HasEnclosingFunction ex_pkg ex_path_blank = Inr False \<and>
   pkg_values ex_pkg_no_entry (obj_addr ex_m_obj) = None \<and>
   HasEnclosingFunction ex_pkg_no_entry ex_path_m = Inl TypeAssertion"
proof -
  have c1: "ClassifyEnclosingTopLevel ex_path_type = NoClass" by code_simp
  have c2: "ClassifyEnclosingTopLevel ex_path_x = PackageInitializer" by code_simp
  have c3: "ClassifyEnclosingTopLevel ex_path_y = NamedDeclaration 10" by code_simp
  have c4: "ClassifyEnclosingTopLevel ex_path_m = NamedDeclaration 30" by code_simp
  have c5: "ClassifyEnclosingTopLevel ex_path_blank = NamedDeclaration 40" by code_simp
  have mem: "Members ex_pkg
      = [MGlobal \<lparr>global_addr = 5\<rparr>, MFunction ex_f, MType ex_T, MNamedConst ex_c]"
    by (simp add: ex_pkg_def)
  have mset: "MethodSet (NewPointer ex_T) = [\<lparr>sel_Obj = ex_m_obj\<rparr>]"
    by (simp add: ex_T_def NewPointer_def)
  have f1: "MFunction ex_f \<in> set (Members ex_pkg)" by (simp add: mem)
  have f2: "fn_Pos ex_f = 10" by (simp add: ex_f_def)
  have m1: "MType ex_T \<in> set (Members ex_pkg)" by (simp add: mem)
  have m2: "\<lparr>sel_Obj = ex_m_obj\<rparr> \<in> set (MethodSet (NewPointer ex_T))" by (simp add: mset)
  have m3: "obj_Pos ex_m_obj = 30" by (simp add: ex_m_obj_def)
  have m4: "pkg_values ex_pkg (obj_addr ex_m_obj) = Some (VFunction ex_m)"
    by (simp add: ex_pkg_def ex_m_obj_def)
  have m5: "pkg_values ex_pkg_no_entry (obj_addr ex_m_obj) = None"
    by (simp add: ex_pkg_no_entry_def ex_pkg_def ex_m_obj_def)
  from c1 HasEnclosingFunction_classification [of ex_pkg ex_path_type]
  have r1: "HasEnclosingFunction ex_pkg ex_path_type = Inr False" by simp
  from c2 HasEnclosingFunction_classification [of ex_pkg ex_path_x]
  have r2: "HasEnclosingFunction ex_pkg ex_path_x = Inr True" by simp
  have good_y: "\<forall>t s. MType t \<in> set (Members ex_pkg) \<and> s \<in> set (MethodSet (NewPointer t)) \<and>
            obj_Pos (sel_Obj s) = 10 \<longrightarrow>
            (\<exists>f. pkg_values ex_pkg (obj_addr (sel_Obj s)) = Some (VFunction f))"
    by (simp add: mem mset m3)
  from HasEnclosingFunction_classification [of ex_pkg ex_path_y]
  have "\<forall>p. ClassifyEnclosingTopLevel ex_path_y = NamedDeclaration p \<longrightarrow>
      (((\<exists>f. MFunction f \<in> set (Members ex_pkg) \<and> fn_Pos f = p) \<or>
        (\<exists>t s. MType t \<in> set (Members ex_pkg) \<and> s \<in> set (MethodSet (NewPointer t)) \<and>
            obj_Pos (sel_Obj s) = p)) \<and>
       (\<forall>t s. MType t \<in> set (Members ex_pkg) \<and> s \<in> set (MethodSet (NewPointer t)) \<and>
            obj_Pos (sel_Obj s) = p \<longrightarrow>
            (\<exists>f. pkg_values ex_pkg (obj_addr (sel_Obj s)) = Some (VFunction f)))
       \<longrightarrow> HasEnclosingFunction ex_pkg ex_path_y = Inr True)"
    by blast
  then have "ClassifyEnclosingTopLevel ex_path_y = NamedDeclaration 10 \<longrightarrow>
      (((\<exists>f. MFunction f \<in> set (Members ex_pkg) \<and> fn_Pos f = 10) \<or>
        (\<exists>t s. MType t \<in> set (Members ex_pkg) \<and> s \<in> set (MethodSet (NewPointer t)) \<and>
            obj_Pos (sel_Obj s) = 10)) \<and>
       (\<forall>t s. MType t \<in> set (Members ex_pkg) \<and> s \<in> set (MethodSet (NewPointer t)) \<and>
            obj_Pos (sel_Obj s) = 10 \<longrightarrow>
            (\<exists>f. pkg_values ex_pkg (obj_addr (sel_Obj s)) = Some (VFunction f)))
       \<longrightarrow> HasEnclosingFunction ex_pkg ex_path_y = Inr True)"
    by (rule spec)
  from this c3 have imp_y: "((\<exists>f. MFunction f \<in> set (Members ex_pkg) \<and> fn_Pos f = 10) \<or>
        (\<exists>t s. MType t \<in> set (Members ex_pkg) \<and> s \<in> set (MethodSet (NewPointer t)) \<and>
            obj_Pos (sel_Obj s) = 10)) \<and>
       (\<forall>t s. MType t \<in> set (Members ex_pkg) \<and> s \<in> set (MethodSet (NewPointer t)) \<and>
            obj_Pos (sel_Obj s) = 10 \<longrightarrow>
            (\<exists>f. pkg_values ex_pkg (obj_addr (sel_Obj s)) = Some (VFunction f)))
       \<longrightarrow> HasEnclosingFunction ex_pkg ex_path_y = Inr True"
    by (rule mp)
  from f1 f2 have ex_y: "\<exists>f. MFunction f \<in> set (Members ex_pkg) \<and> fn_Pos f = 10"
    by (intro exI [of _ ex_f]) simp
  from imp_y conjI [OF disjI1 [OF ex_y] good_y]
  have r3: "HasEnclosingFunction ex_pkg ex_path_y = Inr True"
    by (rule mp)
  from r3 HasEnclosingFunction_classification [of ex_pkg ex_path_y]
  have r3': "HasEnclosingFunction (unbuilt_package ex_pkg) ex_path_y = Inr True" by simp
  have good_m: "\<forall>t s. MType t \<in> set (Members ex_pkg) \<and> s \<in> set (MethodSet (NewPointer t)) \<and>
            obj_Pos (sel_Obj s) = 30 \<longrightarrow>
            (\<exists>f. pkg_values ex_pkg (obj_addr (sel_Obj s)) = Some (VFunction f))"
    using m4 by (simp add: mem mset)
  from HasEnclosingFunction_classification [of ex_pkg ex_path_m]
  have "\<forall>p. ClassifyEnclosingTopLevel ex_path_m = NamedDeclaration p \<longrightarrow>
      (((\<exists>f. MFunction f \<in> set (Members ex_pkg) \<and> fn_Pos f = p) \<or>
        (\<exists>t s. MType t \<in> set (Members ex_pkg) \<and> s \<in> set (MethodSet (NewPointer t)) \<and>
            obj_Pos (sel_Obj s) = p)) \<and>
       (\<forall>t s. MType t \<in> set (Members ex_pkg) \<and> s \<in> set (MethodSet (NewPointer t)) \<and>
            obj_Pos (sel_Obj s) = p \<longrightarrow>
            (\<exists>f. pkg_values ex_pkg (obj_addr (sel_Obj s)) = Some (VFunction f)))
       \<longrightarrow> HasEnclosingFunction ex_pkg ex_path_m = Inr True)"
    by blast
  then have "ClassifyEnclosingTopLevel ex_path_m = NamedDeclaration 30 \<longrightarrow>
      (((\<exists>f. MFunction f \<in> set (Members ex_pkg) \<and> fn_Pos f = 30) \<or>
        (\<exists>t s. MType t \<in> set (Members ex_pkg) \<and> s \<in> set (MethodSet (NewPointer t)) \<and>
            obj_Pos (sel_Obj s) = 30)) \<and>
       (\<forall>t s. MType t \<in> set (Members ex_pkg) \<and> s \<in> set (MethodSet (NewPointer t)) \<and>
            obj_Pos (sel_Obj s) = 30 \<longrightarrow>
            (\<exists>f. pkg_values ex_pkg (obj_addr (sel_Obj s)) = Some (VFunction f)))
       \<longrightarrow> HasEnclosingFunction ex_pkg ex_path_m = Inr True)"
    by (rule spec)
  from this c4 have imp_m: "((\<exists>f. MFunction f \<in> set (Members ex_pkg) \<and> fn_Pos f = 30) \<or>
        (\<exists>t s. MType t \<in> set (Members ex_pkg) \<and> s \<in> set (MethodSet (NewPointer t)) \<and>
            obj_Pos (sel_Obj s) = 30)) \<and>
       (\<forall>t s. MType t \<in> set (Members ex_pkg) \<and> s \<in> set (MethodSet (NewPointer t)) \<and>
            obj_Pos (sel_Obj s) = 30 \<longrightarrow>
            (\<exists>f. pkg_values ex_pkg (obj_addr (sel_Obj s)) = Some (VFunction f)))
       \<longrightarrow> HasEnclosingFunction ex_pkg ex_path_m = Inr True"
    by (rule mp)
  from m1 m2 m3 have ex_m: "\<exists>t s. MType t \<in> set (Members ex_pkg)
      \<and> s \<in> set (MethodSet (NewPointer t)) \<and> obj_Pos (sel_Obj s) = 30"
    by (intro exI [of _ ex_T] exI [of _ "\<lparr>sel_Obj = ex_m_obj\<rparr>"]) simp
  from imp_m conjI [OF disjI2 [OF ex_m] good_m]
  have r4: "HasEnclosingFunction ex_pkg ex_path_m = Inr True"
    by (rule mp)
  have none_blank: "(\<forall>f. MFunction f \<in> set (Members ex_pkg) \<longrightarrow> fn_Pos f \<noteq> 40) \<and>
         (\<forall>t s. MType t \<in> set (Members ex_pkg) \<and> s \<in> set (MethodSet (NewPointer t))
            \<longrightarrow> obj_Pos (sel_Obj s) \<noteq> 40)"
    by (simp add: mem mset m3 f2)
  from HasEnclosingFunction_classification [of ex_pkg ex_path_blank]
  have "\<forall>p. ClassifyEnclosingTopLevel ex_path_blank = NamedDeclaration p \<longrightarrow>
      (HasEnclosingFunction ex_pkg ex_path_blank = Inr False \<longleftrightarrow>
         (\<forall>f. MFunction f \<in> set (Members ex_pkg) \<longrightarrow> fn_Pos f \<noteq> p) \<and>
         (\<forall>t s. MType t \<in> set (Members ex_pkg) \<and> s \<in> set (MethodSet (NewPointer t))
            \<longrightarrow> obj_Pos (sel_Obj s) \<noteq> p))"
    by blast
  then have "ClassifyEnclosingTopLevel ex_path_blank = NamedDeclaration 40 \<longrightarrow>
      (HasEnclosingFunction ex_pkg ex_path_blank = Inr False \<longleftrightarrow>
         (\<forall>f. MFunction f \<in> set (Members ex_pkg) \<longrightarrow> fn_Pos f \<noteq> 40) \<and>
         (\<forall>t s. MType t \<in> set (Members ex_pkg) \<and> s \<in> set (MethodSet (NewPointer t))
            \<longrightarrow> obj_Pos (sel_Obj s) \<noteq> 40))"
    by (rule spec)
  from this c5 have "HasEnclosingFunction ex_pkg ex_path_blank = Inr False \<longleftrightarrow>
         (\<forall>f. MFunction f \<in> set (Members ex_pkg) \<longrightarrow> fn_Pos f \<noteq> 40) \<and>
         (\<forall>t s. MType t \<in> set (Members ex_pkg) \<and> s \<in> set (MethodSet (NewPointer t))
            \<longrightarrow> obj_Pos (sel_Obj s) \<noteq> 40)"
    by (rule mp)
  from this none_blank have r5: "HasEnclosingFunction ex_pkg ex_path_blank = Inr False"
    by (rule iffD2)
  have r6: "HasEnclosingFunction ex_pkg_no_entry ex_path_m = Inl TypeAssertion"
    by code_simp
  from c1 c2 c3 c4 c5 f1 f2 m1 m2 m3 m4 m5 r1 r2 r3 r3' r4 r5 r6 show ?thesis by simp
qed

text \<open>
  Claim C3. Where \<open>HasEnclosingFunction\<close> returns false for a package and a chain,
  \<open>EnclosingFunction\<close> returns nil for them.
\<close>

theorem HasEnclosingFunction_false_EnclosingFunction_nil:
  "HasEnclosingFunction pkg path = Inr False \<Longrightarrow> EnclosingFunction pkg path = Inr None"
  by (auto simp: HasEnclosingFunction_def EnclosingFunction_def split: sum.splits option.splits)

theorem HasEnclosingFunction_false_EnclosingFunction_nil_witness:
  "HasEnclosingFunction ex_pkg ex_path_blank = Inr False \<and>
   EnclosingFunction ex_pkg ex_path_blank = Inr None"
proof -
  have h: "HasEnclosingFunction ex_pkg ex_path_blank = Inr False" by code_simp
  from h HasEnclosingFunction_false_EnclosingFunction_nil [OF h] show ?thesis by simp
qed

subsection \<open>Methods\<close>

lemma findNamedFunc_mset_Inr:
  "findNamedFunc_mset pkg pos ss = Some (Inr f) \<Longrightarrow>
   \<exists>s \<in> set ss. obj_Pos (sel_Obj s) = pos
               \<and> pkg_values pkg (obj_addr (sel_Obj s)) = Some (VFunction f)"
  by (induction ss) (auto split: if_splits option.splits val.splits)

lemma findNamedFunc_members_Inr:
  "\<forall>f. MFunction f \<in> set ms \<longrightarrow> fn_Pos f \<noteq> pos \<Longrightarrow>
   findNamedFunc_members pkg pos ms = Inr (Some fn) \<Longrightarrow>
   \<exists>t s. MType t \<in> set ms \<and> s \<in> set (MethodSet (NewPointer t)) \<and> obj_Pos (sel_Obj s) = pos
        \<and> pkg_values pkg (obj_addr (sel_Obj s)) = Some (VFunction fn)"
proof (induction pkg pos ms rule: findNamedFunc_members.induct)
  case (3 pkg pos t ms)
  show ?case
  proof (cases "findNamedFunc_mset pkg pos (MethodSet (NewPointer t))")
    case None
    with 3 show ?thesis by auto
  next
    case (Some r)
    with "3.prems" have "r = Inr fn" by (cases r) auto
    with Some findNamedFunc_mset_Inr [of pkg pos "MethodSet (NewPointer t)" fn]
    show ?thesis by auto
  qed
qed auto

lemma findNamedFunc_mset_all:
  "\<forall>s \<in> set ss. obj_Pos (sel_Obj s) = pos
      \<longrightarrow> pkg_values pkg (obj_addr (sel_Obj s)) = Some (VFunction fn) \<Longrightarrow>
   findNamedFunc_mset pkg pos ss
     = (if \<exists>s \<in> set ss. obj_Pos (sel_Obj s) = pos then Some (Inr fn) else None)"
  by (induction ss) auto

lemma findNamedFunc_members_all:
  assumes nofun: "\<forall>f. MFunction f \<in> set ms \<longrightarrow> fn_Pos f \<noteq> pos"
    and tab: "\<forall>t s. MType t \<in> set ms \<and> s \<in> set (MethodSet (NewPointer t))
                 \<and> obj_Pos (sel_Obj s) = pos \<longrightarrow>
               pkg_values pkg (obj_addr (sel_Obj s)) = Some (VFunction fn)"
    and ex: "MType t \<in> set ms" "s \<in> set (MethodSet (NewPointer t))" "obj_Pos (sel_Obj s) = pos"
  shows "findNamedFunc_members pkg pos ms = Inr (Some fn)"
  using assms
proof (induction ms)
  case Nil
  then show ?case by simp
next
  case (Cons m ms)
  have nofun': "\<forall>f. MFunction f \<in> set ms \<longrightarrow> fn_Pos f \<noteq> pos"
    using Cons.prems(1) by simp
  have tab': "\<forall>t s. MType t \<in> set ms \<and> s \<in> set (MethodSet (NewPointer t))
                 \<and> obj_Pos (sel_Obj s) = pos \<longrightarrow>
               pkg_values pkg (obj_addr (sel_Obj s)) = Some (VFunction fn)"
    using Cons.prems(2) by auto
  have IH: "findNamedFunc_members pkg pos ms = Inr (Some fn)" if "MType t \<in> set ms"
    using Cons.IH [OF nofun' tab' that Cons.prems(4,5)] .
  show ?case
  proof (cases m)
    case (MFunction f)
    with Cons.prems(1) have "fn_Pos f \<noteq> pos" by simp
    moreover from MFunction Cons.prems(3) have "MType t \<in> set ms" by simp
    ultimately show ?thesis using MFunction IH by simp
  next
    case (MType t')
    have "\<forall>s \<in> set (MethodSet (NewPointer t')). obj_Pos (sel_Obj s) = pos \<longrightarrow>
            pkg_values pkg (obj_addr (sel_Obj s)) = Some (VFunction fn)"
      using Cons.prems(2) MType by (metis list.set_intros(1))
    then have ms: "findNamedFunc_mset pkg pos (MethodSet (NewPointer t'))
        = (if \<exists>s \<in> set (MethodSet (NewPointer t')). obj_Pos (sel_Obj s) = pos
           then Some (Inr fn) else None)"
      by (rule findNamedFunc_mset_all)
    show ?thesis
    proof (cases "\<exists>s \<in> set (MethodSet (NewPointer t')). obj_Pos (sel_Obj s) = pos")
      case True
      with ms MType show ?thesis by simp
    next
      case False
      with Cons.prems(3-5) MType have "MType t \<in> set ms" by auto
      with False ms MType IH show ?thesis by simp
    qed
  next
    case (MGlobal g)
    with Cons.prems(3) have "MType t \<in> set ms" by simp
    with MGlobal IH show ?thesis by simp
  next
    case (MNamedConst c)
    with Cons.prems(3) have "MType t \<in> set ms" by simp
    with MNamedConst IH show ?thesis by simp
  qed
qed

text \<open>
  Claim C8. Take a chain under the declaration of a method (a declaration with a
  receiver) whose name is at a position where the package declares no function.
  Whatever \<open>Function\<close> the resolution of the package-level function returns is the
  entry of the package's value table for the object of a binding, at that
  position, of the method set of the pointer to a member type. And when such a
  binding exists and the table maps the object of every such binding to a
  \<open>Function\<close>, this \<open>Function\<close> is the result. So in a package whose value table
  holds, for the objects of the method bindings, the functions declared for them
  (at the position of the object, not synthesized), the result is the \<open>Function\<close>
  declared at the position of the declaration's name and never a synthesized
  wrapper. The resolution reads the method set and \<open>pkg.values\<close> only:
  \<open>Program.Method\<close>, which makes wrappers, takes no part in it, whatever
  interfaces the type satisfies.
\<close>

theorem findEnclosingPackageLevelFunction_declared_method:
  assumes "2 \<le> length path" and "path ! (length path - 2) = FuncDecl decl"
    and "Recv decl = Some r"
    and "\<forall>f. MFunction f \<in> set (Members pkg) \<longrightarrow> fn_Pos f \<noteq> NamePos (decl_Name decl)"
  shows "(\<forall>fn. findEnclosingPackageLevelFunction pkg path = Inr (Some fn) \<longrightarrow>
            (\<exists>t s. MType t \<in> set (Members pkg) \<and> s \<in> set (MethodSet (NewPointer t)) \<and>
                   obj_Pos (sel_Obj s) = NamePos (decl_Name decl) \<and>
                   pkg_values pkg (obj_addr (sel_Obj s)) = Some (VFunction fn)))
       \<and> (\<forall>fn. (\<exists>t s. MType t \<in> set (Members pkg) \<and> s \<in> set (MethodSet (NewPointer t)) \<and>
                   obj_Pos (sel_Obj s) = NamePos (decl_Name decl)) \<and>
                (\<forall>t s. MType t \<in> set (Members pkg) \<and> s \<in> set (MethodSet (NewPointer t)) \<and>
                   obj_Pos (sel_Obj s) = NamePos (decl_Name decl) \<longrightarrow>
                   pkg_values pkg (obj_addr (sel_Obj s)) = Some (VFunction fn))
              \<longrightarrow> findEnclosingPackageLevelFunction pkg path = Inr (Some fn))
       \<and> ((\<forall>t s f. MType t \<in> set (Members pkg) \<and> s \<in> set (MethodSet (NewPointer t)) \<and>
                   pkg_values pkg (obj_addr (sel_Obj s)) = Some (VFunction f) \<longrightarrow>
                   fn_Pos f = obj_Pos (sel_Obj s) \<and> \<not> Synthetic f)
           \<longrightarrow> (\<forall>fn. findEnclosingPackageLevelFunction pkg path = Inr (Some fn) \<longrightarrow>
                   fn_Pos fn = NamePos (decl_Name decl) \<and> \<not> Synthetic fn))"
proof -
  have eq: "findEnclosingPackageLevelFunction pkg path
            = findNamedFunc_members pkg (NamePos (decl_Name decl)) (Members pkg)"
    using assms(1-3) by (simp add: findEnclosingPackageLevelFunction_def findNamedFunc_def Let_def)
  have entry: "\<exists>t s. MType t \<in> set (Members pkg) \<and> s \<in> set (MethodSet (NewPointer t)) \<and>
                   obj_Pos (sel_Obj s) = NamePos (decl_Name decl) \<and>
                   pkg_values pkg (obj_addr (sel_Obj s)) = Some (VFunction fn)"
    if "findEnclosingPackageLevelFunction pkg path = Inr (Some fn)" for fn
    using that eq findNamedFunc_members_Inr [OF assms(4)] by simp
  show ?thesis
  proof (intro conjI allI impI)
    fix fn assume "findEnclosingPackageLevelFunction pkg path = Inr (Some fn)"
    then show "\<exists>t s. MType t \<in> set (Members pkg) \<and> s \<in> set (MethodSet (NewPointer t)) \<and>
                   obj_Pos (sel_Obj s) = NamePos (decl_Name decl) \<and>
                   pkg_values pkg (obj_addr (sel_Obj s)) = Some (VFunction fn)"
      by (rule entry)
  next
    fix fn
    assume h: "(\<exists>t s. MType t \<in> set (Members pkg) \<and> s \<in> set (MethodSet (NewPointer t)) \<and>
                   obj_Pos (sel_Obj s) = NamePos (decl_Name decl)) \<and>
                (\<forall>t s. MType t \<in> set (Members pkg) \<and> s \<in> set (MethodSet (NewPointer t)) \<and>
                   obj_Pos (sel_Obj s) = NamePos (decl_Name decl) \<longrightarrow>
                   pkg_values pkg (obj_addr (sel_Obj s)) = Some (VFunction fn))"
    then obtain t s where ts: "MType t \<in> set (Members pkg)"
        "s \<in> set (MethodSet (NewPointer t))"
        "obj_Pos (sel_Obj s) = NamePos (decl_Name decl)"
      by blast
    from h have tab: "\<forall>t s. MType t \<in> set (Members pkg) \<and> s \<in> set (MethodSet (NewPointer t)) \<and>
                   obj_Pos (sel_Obj s) = NamePos (decl_Name decl) \<longrightarrow>
                   pkg_values pkg (obj_addr (sel_Obj s)) = Some (VFunction fn)"
      by (rule conjunct2)
    show "findEnclosingPackageLevelFunction pkg path = Inr (Some fn)"
      unfolding eq by (rule findNamedFunc_members_all [OF assms(4) tab ts])
  next
    fix fn
    assume inv: "\<forall>t s f. MType t \<in> set (Members pkg) \<and> s \<in> set (MethodSet (NewPointer t)) \<and>
                   pkg_values pkg (obj_addr (sel_Obj s)) = Some (VFunction f) \<longrightarrow>
                   fn_Pos f = obj_Pos (sel_Obj s) \<and> \<not> Synthetic f"
      and res: "findEnclosingPackageLevelFunction pkg path = Inr (Some fn)"
    from entry [OF res] obtain t s where ts: "MType t \<in> set (Members pkg)"
        "s \<in> set (MethodSet (NewPointer t))"
        "obj_Pos (sel_Obj s) = NamePos (decl_Name decl)"
        "pkg_values pkg (obj_addr (sel_Obj s)) = Some (VFunction fn)"
      by blast
    from inv ts(1,2,4) have "fn_Pos fn = obj_Pos (sel_Obj s) \<and> \<not> Synthetic fn" by blast
    with ts(3) show "fn_Pos fn = NamePos (decl_Name decl)" by simp
  next
    fix fn
    assume inv: "\<forall>t s f. MType t \<in> set (Members pkg) \<and> s \<in> set (MethodSet (NewPointer t)) \<and>
                   pkg_values pkg (obj_addr (sel_Obj s)) = Some (VFunction f) \<longrightarrow>
                   fn_Pos f = obj_Pos (sel_Obj s) \<and> \<not> Synthetic f"
      and res: "findEnclosingPackageLevelFunction pkg path = Inr (Some fn)"
    from entry [OF res] obtain t s where ts: "MType t \<in> set (Members pkg)"
        "s \<in> set (MethodSet (NewPointer t))"
        "pkg_values pkg (obj_addr (sel_Obj s)) = Some (VFunction fn)"
      by blast
    from inv ts show "\<not> Synthetic fn" by blast
  qed
qed

text \<open>In the example, the chain into \<open>m\<close> resolves to the \<open>Function\<close> of \<open>m\<close>, the
  value-table entry of the method's object, through the method set of \<open>*T\<close>: the
  function declared at the position of \<open>m\<close>, and not the wrapper that
  \<open>Program.Method\<close> gives for the binding.\<close>

theorem findEnclosingPackageLevelFunction_declared_method_witness:
  "2 \<le> length ex_path_m \<and>
   ex_path_m ! (length ex_path_m - 2)
     = FuncDecl \<lparr>Recv = Some (FieldList 0), decl_Name = \<lparr>NamePos = 30, ident_Name = ''m''\<rparr>\<rparr> \<and>
   MType ex_T \<in> set (Members ex_pkg) \<and>
   \<lparr>sel_Obj = ex_m_obj\<rparr> \<in> set (MethodSet (NewPointer ex_T)) \<and>
   obj_Pos ex_m_obj = 30 \<and>
   pkg_values ex_pkg (obj_addr ex_m_obj) = Some (VFunction ex_m) \<and>
   findEnclosingPackageLevelFunction ex_pkg ex_path_m = Inr (Some ex_m) \<and>
   fn_Pos ex_m = 30 \<and> \<not> Synthetic ex_m \<and>
   methods ex_prog \<lparr>sel_Obj = ex_m_obj\<rparr> = ex_wrapper \<and> Synthetic ex_wrapper \<and>
   findEnclosingPackageLevelFunction ex_pkg ex_path_m \<noteq> Inr (Some ex_wrapper)"
proof -
  let ?decl = "\<lparr>Recv = Some (FieldList 0), decl_Name = \<lparr>NamePos = 30, ident_Name = ''m''\<rparr>\<rparr>"
  have mem: "Members ex_pkg
      = [MGlobal \<lparr>global_addr = 5\<rparr>, MFunction ex_f, MType ex_T, MNamedConst ex_c]"
    by (simp add: ex_pkg_def)
  have mset: "MethodSet (NewPointer ex_T) = [\<lparr>sel_Obj = ex_m_obj\<rparr>]"
    by (simp add: ex_T_def NewPointer_def)
  have a1: "2 \<le> length ex_path_m" by (simp add: ex_path_m_def)
  have a2: "ex_path_m ! (length ex_path_m - 2) = FuncDecl ?decl" by (simp add: ex_path_m_def)
  have a3: "Recv ?decl = Some (FieldList 0)" by simp
  have a4: "\<forall>f. MFunction f \<in> set (Members ex_pkg) \<longrightarrow> fn_Pos f \<noteq> NamePos (decl_Name ?decl)"
    by (simp add: mem ex_f_def)
  have m1: "MType ex_T \<in> set (Members ex_pkg)" by (simp add: mem)
  have m2: "\<lparr>sel_Obj = ex_m_obj\<rparr> \<in> set (MethodSet (NewPointer ex_T))" by (simp add: mset)
  have m3: "obj_Pos ex_m_obj = 30" by (simp add: ex_m_obj_def)
  have m4: "pkg_values ex_pkg (obj_addr ex_m_obj) = Some (VFunction ex_m)"
    by (simp add: ex_pkg_def ex_m_obj_def)
  have w1: "methods ex_prog \<lparr>sel_Obj = ex_m_obj\<rparr> = ex_wrapper" by (simp add: ex_prog_def)
  have w2: "Synthetic ex_wrapper" by (simp add: ex_wrapper_def)
  have tab: "\<forall>t s. MType t \<in> set (Members ex_pkg) \<and> s \<in> set (MethodSet (NewPointer t)) \<and>
                   obj_Pos (sel_Obj s) = NamePos (decl_Name ?decl) \<longrightarrow>
                   pkg_values ex_pkg (obj_addr (sel_Obj s)) = Some (VFunction ex_m)"
    using m4 by (simp add: mem mset)
  have inv: "\<forall>t s f. MType t \<in> set (Members ex_pkg) \<and> s \<in> set (MethodSet (NewPointer t)) \<and>
                   pkg_values ex_pkg (obj_addr (sel_Obj s)) = Some (VFunction f) \<longrightarrow>
                   fn_Pos f = obj_Pos (sel_Obj s) \<and> \<not> Synthetic f"
    using m4 m3 by (simp add: mem mset ex_m_def)
  note main = findEnclosingPackageLevelFunction_declared_method [OF a1 a2 a3 a4]
  have bnd: "\<exists>t s. MType t \<in> set (Members ex_pkg)
                   \<and> s \<in> set (MethodSet (NewPointer t)) \<and>
                   obj_Pos (sel_Obj s) = NamePos (decl_Name ?decl)"
    using m1 m2 m3 by (intro exI [of _ ex_T] exI [of _ "\<lparr>sel_Obj = ex_m_obj\<rparr>"]) simp
  from main [THEN conjunct2, THEN conjunct1, THEN spec, of ex_m] conjI [OF bnd tab]
  have res: "findEnclosingPackageLevelFunction ex_pkg ex_path_m = Inr (Some ex_m)"
    by (rule mp)
  from main [THEN conjunct2, THEN conjunct2] inv
  have "\<forall>fn. findEnclosingPackageLevelFunction ex_pkg ex_path_m = Inr (Some fn) \<longrightarrow>
                   fn_Pos fn = NamePos (decl_Name ?decl) \<and> \<not> Synthetic fn"
    by (rule mp)
  then have "findEnclosingPackageLevelFunction ex_pkg ex_path_m = Inr (Some ex_m) \<longrightarrow>
                   fn_Pos ex_m = NamePos (decl_Name ?decl) \<and> \<not> Synthetic ex_m"
    by (rule spec)
  from this res have "fn_Pos ex_m = NamePos (decl_Name ?decl) \<and> \<not> Synthetic ex_m"
    by (rule mp)
  then have decl: "fn_Pos ex_m = 30 \<and> \<not> Synthetic ex_m" by simp
  have nw: "findEnclosingPackageLevelFunction ex_pkg ex_path_m \<noteq> Inr (Some ex_wrapper)"
    by (simp add: res ex_m_def ex_wrapper_def)
  from a1 a2 m1 m2 m3 m4 res decl w1 w2 nw show ?thesis by simp
qed

subsection \<open>\<open>ValueForExpr\<close>\<close>

lemma ValueForExpr_instrs_Some:
  "ValueForExpr_instrs e ins = Some v \<Longrightarrow>
   \<exists>re rp. DebugRef re rp v \<in> set ins \<and> expr_addr re = expr_addr e"
  by (induction e ins rule: ValueForExpr_instrs.induct) (auto split: if_splits)

lemma ValueForExpr_instrs_None:
  "ValueForExpr_instrs e ins = None \<Longrightarrow> DebugRef re rp rx \<in> set ins \<Longrightarrow>
   expr_addr re \<noteq> expr_addr e"
  by (induction e ins rule: ValueForExpr_instrs.induct) (auto split: if_splits)

lemma ValueForExpr_blocks_Some:
  "ValueForExpr_blocks e bs = Some v \<Longrightarrow>
   \<exists>b \<in> set bs. \<exists>re rp. DebugRef re rp v \<in> set (Instrs b) \<and> expr_addr re = expr_addr e"
proof (induction bs)
  case Nil
  then show ?case by simp
next
  case (Cons b bs)
  show ?case
  proof (cases "ValueForExpr_instrs e (Instrs b)")
    case None
    with Cons show ?thesis by auto
  next
    case (Some w)
    with Cons.prems have "w = v" by simp
    with Some ValueForExpr_instrs_Some [of e "Instrs b" v] show ?thesis by auto
  qed
qed

lemma ValueForExpr_blocks_None:
  "ValueForExpr_blocks e bs = None \<Longrightarrow> b \<in> set bs \<Longrightarrow> DebugRef re rp rx \<in> set (Instrs b) \<Longrightarrow>
   expr_addr re \<noteq> expr_addr e"
  by (induction bs) (auto split: option.splits dest: ValueForExpr_instrs_None)

lemma unparen_foldr_ParenExpr: "unparen (foldr ParenExpr as e) = unparen e"
  by (induction as) auto

text \<open>
  Claim C4. For a function without debug information \<open>ValueForExpr\<close> returns nil.
  For a function with debug information it returns the value \<open>X\<close> of a debug
  reference in one of the function's blocks whose expression pointer is that of
  the expression with its parentheses stripped, or else no block holds such a
  debug reference and it returns nil.
\<close>

theorem ValueForExpr_debug_reference:
  "(\<not> debugInfo f \<longrightarrow> ValueForExpr f e = None) \<and>
   (debugInfo f \<longrightarrow>
      (\<exists>b \<in> set (Blocks f). \<exists>re rp. DebugRef re rp (ValueForExpr f e) \<in> set (Instrs b)
          \<and> expr_addr re = expr_addr (unparen e))
    \<or> ((\<forall>b \<in> set (Blocks f). \<forall>re rp rx. DebugRef re rp rx \<in> set (Instrs b)
          \<longrightarrow> expr_addr re \<noteq> expr_addr (unparen e)) \<and> ValueForExpr f e = None))"
proof (cases "ValueForExpr_blocks (unparen e) (Blocks f)")
  case None
  then show ?thesis
    using ValueForExpr_blocks_None [OF None] by (auto simp: ValueForExpr_def)
next
  case (Some v)
  then show ?thesis
    using ValueForExpr_blocks_Some [OF Some] by (auto simp: ValueForExpr_def)
qed

text \<open>In the example, the function of the literal has debug information and a debug
  reference for the expression at address 100; the method \<open>m\<close> has no debug
  information.\<close>

theorem ValueForExpr_debug_reference_witness:
  "debugInfo ex_lit \<and>
   ValueForExpr ex_lit (ParenExpr 101 (OtherExpr 100)) = Some (VInstr 7) \<and>
   ValueForExpr ex_lit (OtherExpr 103) = None \<and>
   \<not> debugInfo ex_m \<and>
   ValueForExpr ex_m (OtherExpr 100) = None"
proof -
  have d1: "debugInfo ex_lit" by (simp add: ex_lit_def)
  have d2: "\<not> debugInfo ex_m" by (simp add: ex_m_def)
  have v1: "ValueForExpr ex_lit (ParenExpr 101 (OtherExpr 100)) = Some (VInstr 7)" by code_simp
  have v2: "ValueForExpr ex_lit (OtherExpr 103) = None" by code_simp
  from d2 ValueForExpr_debug_reference [of ex_m "OtherExpr 100"]
  have v3: "ValueForExpr ex_m (OtherExpr 100) = None" by simp
  from d1 d2 v1 v2 v3 ValueForExpr_debug_reference [of ex_lit "ParenExpr 101 (OtherExpr 100)"]
    ValueForExpr_debug_reference [of ex_lit "OtherExpr 103"]
  show ?thesis by simp
qed

text \<open>
  Claim C5. Wrapping the expression in any number of parenthesis nodes, at the
  addresses \<open>as\<close>, does not change the result of \<open>ValueForExpr\<close>.
\<close>

theorem ValueForExpr_unparen_invariant:
  "ValueForExpr f (foldr ParenExpr as e) = ValueForExpr f e"
  by (simp add: ValueForExpr_def unparen_foldr_ParenExpr)

subsection \<open>\<open>ConstValue\<close>\<close>

text \<open>
  Claim C6. \<open>ConstValue\<close> never returns nil. For a universal constant, and for a
  constant with no entry in the value table of its package (there is no SSA
  package for it, or the table has no entry for the object), it returns a \<open>Const\<close>
  newly allocated at the next free address \<open>h\<close>, with the type and the value of
  the object. It returns a \<open>Const\<close> without allocating exactly when the constant
  is not universal and the table of its package holds that \<open>Const\<close> for it.
\<close>

theorem ConstValue_never_nil:
  "(\<forall>h'. ConstValue prog obj h \<noteq> Inr (None, h')) \<and>
   (obj_Parent obj = Some Universe \<or> packageLevelValue prog obj = None \<longrightarrow>
      ConstValue prog obj h =
        Inr (Some \<lparr>const_addr = h, Type = const_Type obj, Value = const_Val obj\<rparr>, Suc h)) \<and>
   (\<forall>c. ConstValue prog obj h = Inr (Some c, h) \<longleftrightarrow>
      obj_Parent obj \<noteq> Some Universe \<and> packageLevelValue prog obj = Some (VConst c))"
  by (auto simp: ConstValue_def NewConst_def split: option.splits val.splits)

theorem ConstValue_never_nil_witness:
  "obj_Parent ex_true_const = Some Universe \<and>
   ConstValue ex_prog ex_true_const 1000
     = Inr (Some \<lparr>const_addr = 1000, Type = Basic ''untyped bool'', Value = BoolVal True\<rparr>, 1001) \<and>
   packageLevelValue ex_prog ex_k_const = None \<and>
   ConstValue ex_prog ex_k_const 1000
     = Inr (Some \<lparr>const_addr = 1000, Type = Basic ''string'', Value = StringVal ''k''\<rparr>, 1001) \<and>
   obj_Parent ex_c_const \<noteq> Some Universe \<and>
   packageLevelValue ex_prog ex_c_const = Some (VConst ex_c) \<and>
   ConstValue ex_prog ex_c_const 1000 = Inr (Some ex_c, 1000)"
proof -
  have u: "obj_Parent ex_true_const = Some Universe" by (simp add: ex_true_const_def)
  have k: "packageLevelValue ex_prog ex_k_const = None" by code_simp
  have c: "obj_Parent ex_c_const \<noteq> Some Universe" by (simp add: ex_c_const_def)
  have t: "packageLevelValue ex_prog ex_c_const = Some (VConst ex_c)" by code_simp
  from u ConstValue_never_nil [of ex_prog ex_true_const 1000]
  have r1: "ConstValue ex_prog ex_true_const 1000
     = Inr (Some \<lparr>const_addr = 1000, Type = Basic ''untyped bool'', Value = BoolVal True\<rparr>, 1001)"
    by (simp add: ex_true_const_def)
  from k ConstValue_never_nil [of ex_prog ex_k_const 1000]
  have r2: "ConstValue ex_prog ex_k_const 1000
     = Inr (Some \<lparr>const_addr = 1000, Type = Basic ''string'', Value = StringVal ''k''\<rparr>, 1001)"
    by (simp add: ex_k_const_def)
  from c t ConstValue_never_nil [of ex_prog ex_c_const 1000]
  have r3: "ConstValue ex_prog ex_c_const 1000 = Inr (Some ex_c, 1000)"
    by simp
  from u k c t r1 r2 r3 show ?thesis by simp
qed

subsection \<open>\<open>FuncValue\<close>\<close>

text \<open>
  Claim C9. \<open>FuncValue\<close> returns without a panic for every function object: the
  entry of the table of built-ins for an object in that table; otherwise the
  value of the object in the value table of its package, when there is one;
  otherwise the \<open>Function\<close> that implements the binding for the object's package
  and name in the method set of its receiver's type; and nil when there is no
  such binding, also for a function whose package has no SSA package.
\<close>

theorem FuncValue_total:
  "(\<exists>v. FuncValue prog obj = Inr v) \<and>
   (\<forall>b. builtins prog (obj_addr obj) = Some b \<longrightarrow>
        FuncValue prog obj = Inr (Some (VBuiltin b))) \<and>
   (\<forall>v. builtins prog (obj_addr obj) = None \<and> packageLevelValue prog obj = Some v \<longrightarrow>
        FuncValue prog obj = Inr (Some v)) \<and>
   (\<forall>sel. builtins prog (obj_addr obj) = None \<and> packageLevelValue prog obj = None \<and>
        Lookup (recvMethodSet obj) (obj_Pkg obj) (obj_Name obj) = Some sel \<longrightarrow>
        FuncValue prog obj = Inr (Some (VFunction (methods prog sel)))) \<and>
   (builtins prog (obj_addr obj) = None \<and> packageLevelValue prog obj = None \<and>
        Lookup (recvMethodSet obj) (obj_Pkg obj) (obj_Name obj) = None \<longrightarrow>
        FuncValue prog obj = Inr None) \<and>
   (builtins prog (obj_addr obj) = None \<and> packages prog (obj_Pkg obj) = None \<and>
        Lookup (recvMethodSet obj) (obj_Pkg obj) (obj_Name obj) = None \<longrightarrow>
        FuncValue prog obj = Inr None)"
  by (auto simp: FuncValue_def Method_def packageLevelValue_def split: option.splits)

theorem FuncValue_total_witness:
  "builtins ex_prog (obj_addr ex_len_func) = Some \<lparr>builtin_addr = 71\<rparr> \<and>
   FuncValue ex_prog ex_len_func = Inr (Some (VBuiltin \<lparr>builtin_addr = 71\<rparr>)) \<and>
   builtins ex_prog (obj_addr ex_f_func) = None \<and>
   packageLevelValue ex_prog ex_f_func = Some (VFunction ex_f) \<and>
   FuncValue ex_prog ex_f_func = Inr (Some (VFunction ex_f)) \<and>
   builtins ex_prog (obj_addr ex_n_func) = None \<and>
   packageLevelValue ex_prog ex_n_func = None \<and>
   Lookup (recvMethodSet ex_n_func) (obj_Pkg ex_n_func) (obj_Name ex_n_func)
     = Some \<lparr>sel_Obj = ex_n_obj\<rparr> \<and>
   FuncValue ex_prog ex_n_func = Inr (Some (VFunction ex_wrapper)) \<and>
   builtins ex_prog (obj_addr ex_g_func) = None \<and>
   packages ex_prog (obj_Pkg ex_g_func) = None \<and>
   Lookup (recvMethodSet ex_g_func) (obj_Pkg ex_g_func) (obj_Name ex_g_func) = None \<and>
   FuncValue ex_prog ex_g_func = Inr None"
proof -
  have b1: "builtins ex_prog (obj_addr ex_len_func) = Some \<lparr>builtin_addr = 71\<rparr>" by code_simp
  have b2: "builtins ex_prog (obj_addr ex_f_func) = None" by code_simp
  have p2: "packageLevelValue ex_prog ex_f_func = Some (VFunction ex_f)" by code_simp
  have b3: "builtins ex_prog (obj_addr ex_n_func) = None" by code_simp
  have p3: "packageLevelValue ex_prog ex_n_func = None" by code_simp
  have l3: "Lookup (recvMethodSet ex_n_func) (obj_Pkg ex_n_func) (obj_Name ex_n_func)
     = Some \<lparr>sel_Obj = ex_n_obj\<rparr>" by code_simp
  have m3: "methods ex_prog \<lparr>sel_Obj = ex_n_obj\<rparr> = ex_wrapper" by (simp add: ex_prog_def)
  have b4: "builtins ex_prog (obj_addr ex_g_func) = None" by code_simp
  have p4: "packages ex_prog (obj_Pkg ex_g_func) = None" by code_simp
  have l4: "Lookup (recvMethodSet ex_g_func) (obj_Pkg ex_g_func) (obj_Name ex_g_func) = None"
    by code_simp
  from b1 FuncValue_total [of ex_prog ex_len_func]
  have r1: "FuncValue ex_prog ex_len_func = Inr (Some (VBuiltin \<lparr>builtin_addr = 71\<rparr>))" by simp
  from b2 p2 FuncValue_total [of ex_prog ex_f_func]
  have r2: "FuncValue ex_prog ex_f_func = Inr (Some (VFunction ex_f))" by simp
  from b3 p3 l3 m3 FuncValue_total [of ex_prog ex_n_func]
  have r3: "FuncValue ex_prog ex_n_func = Inr (Some (VFunction ex_wrapper))" by simp
  from b4 p4 l4 FuncValue_total [of ex_prog ex_g_func]
  have r4: "FuncValue ex_prog ex_g_func = Inr None" by simp
  from b1 b2 p2 b3 p3 l3 b4 p4 l4 r1 r2 r3 r4 show ?thesis by simp
qed

subsection \<open>\<open>VarValue\<close>\<close>

text \<open>
  Claim C7. \<open>VarValue\<close> takes \<open>ref\<close>, the path to an identifier: the first node
  of the chain is the identifier. For a variable that is not at package level and
  such a chain, if \<open>EnclosingFunction\<close> returns nil for the package and the chain,
  then \<open>VarValue\<close> returns nil, without a panic.
\<close>

theorem VarValue_propagates_nil:
  "packageLevelValue prog obj = None \<Longrightarrow> ref = Ident idn # rest \<Longrightarrow>
   EnclosingFunction pkg ref = Inr None \<Longrightarrow> VarValue prog obj pkg ref = Inr None"
  by (simp add: VarValue_def)

text \<open>In the example, before the functions of the package are built, the chain to
  \<open>y\<close> has no enclosing function and \<open>y\<close> no value.\<close>

theorem VarValue_propagates_nil_witness:
  "packageLevelValue ex_prog_unbuilt ex_y_var = None \<and>
   EnclosingFunction (unbuilt_package ex_pkg) ex_path_y = Inr None \<and>
   VarValue ex_prog_unbuilt ex_y_var (unbuilt_package ex_pkg) ex_path_y = Inr None"
proof -
  have p: "packageLevelValue ex_prog_unbuilt ex_y_var = None" by code_simp
  have r: "ex_path_y = Ident \<lparr>NamePos = 25, ident_Name = ''y''\<rparr>
      # [FuncLit \<lparr>lit_Type = \<lparr>Func = 20\<rparr>\<rparr>, OtherNode 1,
         FuncDecl \<lparr>Recv = None, decl_Name = \<lparr>NamePos = 10, ident_Name = ''f''\<rparr>\<rparr>, File]"
    by (simp add: ex_path_y_def)
  have e: "EnclosingFunction (unbuilt_package ex_pkg) ex_path_y = Inr None" by code_simp
  from p e VarValue_propagates_nil [OF p r e] show ?thesis by simp
qed

text \<open>
  Claim C10. \<open>VarValue\<close> takes the identifier from the head of the chain before
  anything else: on an empty chain it panics with an index out of range, and on a
  chain whose first node is no identifier with a failed type assertion, whatever
  the program, the variable and the package are, so also for a package-level
  variable.
\<close>

theorem VarValue_requires_ident_head:
  "(ref = [] \<longrightarrow> VarValue prog obj pkg ref = Inl IndexOutOfRange) \<and>
   (\<forall>n rest. ref = n # rest \<and> (\<forall>idn. n \<noteq> Ident idn) \<longrightarrow>
      VarValue prog obj pkg ref = Inl TypeAssertion)"
  by (auto simp: VarValue_def split: list.splits node.splits)

text \<open>In the example, \<open>x\<close> is a package-level variable with a \<open>Global\<close> in the value
  table, and \<open>VarValue\<close> still panics on both chains.\<close>

theorem VarValue_requires_ident_head_witness:
  "packageLevelValue ex_prog ex_x_var = Some (VGlobal \<lparr>global_addr = 5\<rparr>) \<and>
   VarValue ex_prog ex_x_var ex_pkg [] = Inl IndexOutOfRange \<and>
   ex_path_type = OtherNode 4 # [GenDecl \<lparr>Tok = TYPE_tok\<rparr>, File] \<and>
   VarValue ex_prog ex_x_var ex_pkg ex_path_type = Inl TypeAssertion"
proof -
  have p: "packageLevelValue ex_prog ex_x_var = Some (VGlobal \<lparr>global_addr = 5\<rparr>)" by code_simp
  have r: "ex_path_type = OtherNode 4 # [GenDecl \<lparr>Tok = TYPE_tok\<rparr>, File]"
    by (simp add: ex_path_type_def)
  from VarValue_requires_ident_head [of "[]" ex_prog ex_x_var ex_pkg]
  have r1: "VarValue ex_prog ex_x_var ex_pkg [] = Inl IndexOutOfRange" by simp
  have n: "\<forall>idn. OtherNode 4 \<noteq> Ident idn" by simp
  from VarValue_requires_ident_head [of ex_path_type ex_prog ex_x_var ex_pkg]
  have "\<forall>n rest. ex_path_type = n # rest \<and> (\<forall>idn. n \<noteq> Ident idn) \<longrightarrow>
      VarValue ex_prog ex_x_var ex_pkg ex_path_type = Inl TypeAssertion"
    by (rule conjunct2)
  with r n have r2: "VarValue ex_prog ex_x_var ex_pkg ex_path_type = Inl TypeAssertion"
    by blast
  from p r r1 r2 show ?thesis by simp
qed

end
